theory Spec2Isabelle
  imports Complex_Main "HOL-Library.Char_ord"
begin

section \<open>Errors\<close>

text \<open>
  Every exception that a modelled statement of the notebook can raise is a value of
  \<open>error\<close>; a function that can raise returns \<open>error + 'a\<close> with \<open>Inl\<close> for the
  exception. The first eight constructors are the Python and PyTorch exceptions the source
  raises. The last three are the error names of the written specification
  (\<open>UnknownCharacter\<close>, \<open>InsufficientData\<close>, \<open>ConfigurationError\<close>): the source defines
  and raises none of them, so no function below returns them; they exist so that a claim
  naming one of them can be stated.
\<close>

datatype error =
    KeyError | IndexError | TypeError | ZeroDivisionError | RuntimeError | NameError | ValueError
  | AttributeError
  | UnknownCharacter | InsufficientData | ConfigurationError

section \<open>Vocabulary and tokenizer\<close>

text \<open>
  \<^verbatim>\<open>
  used_chars = sorted(list(set(train_df)))
  vocab_size = len(used_chars)
  char_to_int = { ch:i for i,ch in enumerate(used_chars) }
  int_to_char = { i:ch for i,ch in enumerate(used_chars) }
  encode = lambda s: [char_to_int[c] for c in s]
  decode = lambda l: ''.join([int_to_char[i] for i in l])
  \<close>
  A Python string is a sequence of code points, ordered by code point; the model is a list
  over any linearly ordered type of characters \<open>'c\<close> (\<open>char\<close> with its code order, or
  \<open>nat\<close> code points). \<open>sorted(list(set(s)))\<close> is the sorted list of the distinct
  characters of \<open>s\<close>. Token ids are Python integers.
\<close>

definition used_chars :: "'c::linorder list \<Rightarrow> 'c list" where
  "used_chars train_df = sort (remdups train_df)"

definition vocab_size :: "'c::linorder list \<Rightarrow> nat" where
  "vocab_size train_df = length (used_chars train_df)"

text \<open>\<open>enumerate(xs)\<close> pairs each element with its index, counted from 0.\<close>

definition py_enumerate :: "'a list \<Rightarrow> (int \<times> 'a) list" where
  "py_enumerate xs = zip (map int [0..<length xs]) xs"

text \<open>
  A dictionary comprehension stores its pairs in order; a later pair with the same key
  overwrites an earlier one.
\<close>

definition dict_of :: "('k \<times> 'v) list \<Rightarrow> ('k \<rightharpoonup> 'v)" where
  "dict_of kvs = fold (\<lambda>(k, v) m. m(k \<mapsto> v)) kvs Map.empty"

definition char_to_int :: "'c::linorder list \<Rightarrow> ('c \<rightharpoonup> int)" where
  "char_to_int train_df = dict_of (map (\<lambda>(i, ch). (ch, i)) (py_enumerate (used_chars train_df)))"

definition int_to_char :: "'c::linorder list \<Rightarrow> (int \<rightharpoonup> 'c)" where
  "int_to_char train_df = dict_of (map (\<lambda>(i, ch). (i, ch)) (py_enumerate (used_chars train_df)))"

text \<open>
  \<open>[d[k] for k in ks]\<close>: the lookups run from left to right and the first missing key
  raises \<open>KeyError\<close>; the list built so far is discarded with the exception.
\<close>

fun lookup_all :: "('k \<rightharpoonup> 'v) \<Rightarrow> 'k list \<Rightarrow> error + 'v list" where
  "lookup_all d [] = Inr []"
| "lookup_all d (k # ks) =
     (case d k of
        None \<Rightarrow> Inl KeyError
      | Some v \<Rightarrow> (case lookup_all d ks of Inl e \<Rightarrow> Inl e | Inr vs \<Rightarrow> Inr (v # vs)))"

definition encode :: "'c::linorder list \<Rightarrow> 'c list \<Rightarrow> error + int list" where
  "encode train_df s = lookup_all (char_to_int train_df) s"

definition decode :: "'c::linorder list \<Rightarrow> int list \<Rightarrow> error + 'c list" where
  "decode train_df l = lookup_all (int_to_char train_df) l"

section \<open>Batch sampler\<close>

text \<open>
  \<^verbatim>\<open>
  def get_batch(split: str):
    if split == "train":
      data = train_encoded
    elif split == "dev":
      data = dev_encoded
    elif split == "test":
      data = test_encoded

    ix = torch.randint(len(data) - block_size, (batch_size,))
    x = torch.stack([data[i:i+block_size] for i in ix])
    y = torch.stack([data[i+1:i+block_size+1] for i in ix])
    return x, y
  \<close>
  The three encoded splits are globals of the notebook; here they are the fields of a
  record. A split name other than the three leaves \<open>data\<close> unbound, so that reading it
  raises \<open>UnboundLocalError\<close>, a \<open>NameError\<close>.
\<close>

record corpus =
  train_encoded :: "int list"
  dev_encoded :: "int list"
  test_encoded :: "int list"

definition select_split :: "corpus \<Rightarrow> string \<Rightarrow> error + int list" where
  "select_split c split =
     (if split = ''train'' then Inr (train_encoded c)
      else if split = ''dev'' then Inr (dev_encoded c)
      else if split = ''test'' then Inr (test_encoded c)
      else Inl NameError)"

text \<open>
  \<open>torch.randint(high, (n,))\<close> draws \<open>n\<close> integers from \<open>[0, high)\<close> and raises
  \<open>RuntimeError\<close> unless \<open>0 < high\<close>. The generator is the library's: it reduces one raw
  draw per entry modulo the width of the range. The raw draws are the random source of the
  model (\<open>raw k\<close> is the draw for entry \<open>k\<close>); that they are independent and uniform is a
  property of the library's generator, outside the model.
\<close>

definition randint :: "(nat \<Rightarrow> nat) \<Rightarrow> int \<Rightarrow> nat \<Rightarrow> error + nat list" where
  "randint raw high n =
     (if high \<le> 0 then Inl RuntimeError
      else Inr (map (\<lambda>k. raw k mod nat high) [0..<n]))"

text \<open>The slice \<open>xs[i:j]\<close> for \<open>0 \<le> i \<le> j\<close>; a slice that runs past the end is cut there.\<close>

definition slice :: "'a list \<Rightarrow> nat \<Rightarrow> nat \<Rightarrow> 'a list" where
  "slice xs i j = take (j - i) (drop i xs)"

text \<open>
  \<open>torch.stack\<close> raises \<open>RuntimeError\<close> on an empty list of tensors and on tensors of
  different sizes.
\<close>

definition stack :: "'a list list \<Rightarrow> error + 'a list list" where
  "stack rows =
     (if rows = [] then Inl RuntimeError
      else if \<exists>r\<in>set rows. length r \<noteq> length (hd rows) then Inl RuntimeError
      else Inr rows)"

definition get_batch ::
  "corpus \<Rightarrow> nat \<Rightarrow> nat \<Rightarrow> (nat \<Rightarrow> nat) \<Rightarrow> string \<Rightarrow> error + (int list list \<times> int list list)" where
  "get_batch c block_size batch_size raw split =
     (case select_split c split of
        Inl e \<Rightarrow> Inl e
      | Inr data \<Rightarrow>
         (case randint raw (int (length data) - int block_size) batch_size of
            Inl e \<Rightarrow> Inl e
          | Inr ix \<Rightarrow>
             (case stack (map (\<lambda>i. slice data i (i + block_size)) ix) of
                Inl e \<Rightarrow> Inl e
              | Inr x \<Rightarrow>
                 (case stack (map (\<lambda>i. slice data (i + 1) (i + block_size + 1)) ix) of
                    Inl e \<Rightarrow> Inl e
                  | Inr y \<Rightarrow> Inr (x, y)))))"

section \<open>Tensors and layers\<close>

text \<open>
  Numbers are real numbers: rounding, overflow and the not-a-number values of floating
  point are outside the model. An activation tensor of shape \<open>(T, C)\<close> is the list of its
  \<open>T\<close> rows, each a list of \<open>C\<close> numbers; a batch of shape \<open>(B, T, C)\<close> is the list of its
  \<open>B\<close> samples. The shape of an activation is read off the lists, so with \<open>T = 0\<close> the
  width \<open>C\<close> is not represented and a width check cannot fire on an empty tensor. A learned
  parameter tensor is kept with its declared sizes and an indexing function for its
  entries, so that its shape is what the constructor declared.
\<close>

type_synonym vec = "real list"
type_synonym mat = "real list list"

text \<open>A list comprehension whose body can raise: the first exception ends it.\<close>

fun map_err :: "('a \<Rightarrow> error + 'b) \<Rightarrow> 'a list \<Rightarrow> error + 'b list" where
  "map_err f [] = Inr []"
| "map_err f (x # xs) =
     (case f x of
        Inl e \<Rightarrow> Inl e
      | Inr y \<Rightarrow> (case map_err f xs of Inl e \<Rightarrow> Inl e | Inr ys \<Rightarrow> Inr (y # ys)))"

subsection \<open>Sources of randomness and of initial values\<close>

text \<open>
  The Bernoulli draws of the dropout layers, the uniform draws of the token sampler and the
  initial values of the parameters come from the library's generator. In the model each is
  a function of the place where the draw is made, a path of indices; \<open>sub\<close> selects the
  draws below one index.
\<close>

type_synonym 'a source = "nat list \<Rightarrow> 'a"

definition sub :: "'a source \<Rightarrow> nat \<Rightarrow> 'a source" where
  "sub r k = (\<lambda>p. r (k # p))"

subsection \<open>\<open>nn.Linear\<close>\<close>

record linear =
  lin_in :: nat
  lin_out :: nat
  lin_weight :: "nat \<Rightarrow> nat \<Rightarrow> real"
  lin_bias :: "(nat \<Rightarrow> real) option"

definition Linear_init :: "real source \<Rightarrow> nat \<Rightarrow> nat \<Rightarrow> bool \<Rightarrow> linear" where
  "Linear_init ini n_in n_out has_bias =
     \<lparr>lin_in = n_in, lin_out = n_out,
      lin_weight = (\<lambda>out i. ini [0, out, i]),
      lin_bias = (if has_bias then Some (\<lambda>out. ini [1, out]) else None)\<rparr>"

definition dot :: "(nat \<Rightarrow> real) \<Rightarrow> vec \<Rightarrow> real" where
  "dot w x = (\<Sum>i<length x. w i * x ! i)"

text \<open>
  The layer applied to one row: \<open>x W\<^sup>T + b\<close>. A row whose width is not \<open>in_features\<close>
  raises \<open>RuntimeError\<close> (shapes cannot be multiplied).
\<close>

definition linear_apply :: "linear \<Rightarrow> vec \<Rightarrow> vec" where
  "linear_apply L x =
     map (\<lambda>out. dot (lin_weight L out) x + (case lin_bias L of None \<Rightarrow> 0 | Some b \<Rightarrow> b out))
         [0..<lin_out L]"

definition linear_row :: "linear \<Rightarrow> vec \<Rightarrow> error + vec" where
  "linear_row L x = (if length x \<noteq> lin_in L then Inl RuntimeError else Inr (linear_apply L x))"

definition linear_fwd :: "linear \<Rightarrow> mat \<Rightarrow> error + mat" where
  "linear_fwd L x = map_err (linear_row L) x"

subsection \<open>\<open>nn.LayerNorm\<close>\<close>

record layer_norm =
  ln_dim :: nat
  ln_gamma :: "nat \<Rightarrow> real"
  ln_beta :: "nat \<Rightarrow> real"
  ln_eps :: real

text \<open>\<open>nn.LayerNorm(n)\<close> starts with weight one, bias zero and \<open>eps = 1e-5\<close>.\<close>

definition LayerNorm_init :: "nat \<Rightarrow> layer_norm" where
  "LayerNorm_init n = \<lparr>ln_dim = n, ln_gamma = (\<lambda>i. 1), ln_beta = (\<lambda>i. 0), ln_eps = 1 / 100000\<rparr>"

text \<open>
  Mean and (biased) variance over one row. On the empty row both divide by zero; the layer
  maps over the entries of the row, so on the empty row neither value is used.
\<close>

definition mean :: "vec \<Rightarrow> real" where
  "mean x = sum_list x / real (length x)"

definition variance :: "vec \<Rightarrow> real" where
  "variance x = mean (map (\<lambda>v. (v - mean x)\<^sup>2) x)"

definition layer_norm_apply :: "layer_norm \<Rightarrow> vec \<Rightarrow> vec" where
  "layer_norm_apply nrm x =
     map (\<lambda>i. (x ! i - mean x) / sqrt (variance x + ln_eps nrm) * ln_gamma nrm i + ln_beta nrm i)
         [0..<length x]"

text \<open>A row whose width is not the normalised width raises \<open>RuntimeError\<close>.\<close>

definition layer_norm_row :: "layer_norm \<Rightarrow> vec \<Rightarrow> error + vec" where
  "layer_norm_row nrm x =
     (if length x \<noteq> ln_dim nrm then Inl RuntimeError else Inr (layer_norm_apply nrm x))"

definition layer_norm_fwd :: "layer_norm \<Rightarrow> mat \<Rightarrow> error + mat" where
  "layer_norm_fwd nrm x = map_err (layer_norm_row nrm) x"

subsection \<open>\<open>nn.Dropout\<close>\<close>

text \<open>
  \<open>nn.Dropout(p)\<close> raises \<open>ValueError\<close> unless \<open>0 \<le> p \<le> 1\<close>. In training mode each entry
  is zeroed when its Bernoulli draw says so (with probability \<open>p\<close>) and scaled by
  \<open>1 / (1 - p)\<close> otherwise; in evaluation mode the layer is the identity. With \<open>p = 1\<close>
  every entry is zeroed.
\<close>

definition Dropout_init :: "real \<Rightarrow> error + real" where
  "Dropout_init p = (if p < 0 \<or> 1 < p then Inl ValueError else Inr p)"

definition dropout :: "real \<Rightarrow> bool \<Rightarrow> bool source \<Rightarrow> mat \<Rightarrow> mat" where
  "dropout p training zeroed x =
     (if training
      then map (\<lambda>t. map (\<lambda>j. if p = 1 \<or> zeroed [t, j] then 0 else x ! t ! j / (1 - p))
                         [0..<length (x ! t)])
               [0..<length x]
      else x)"

subsection \<open>\<open>Head\<close>: one head of causal self-attention\<close>

text \<open>
  \<^verbatim>\<open>
  def __init__(self, head_size, n_embd, block_size, dropout=0.1):
      super().__init__()
      self.key = nn.Linear(n_embd, head_size, bias=False)
      self.query = nn.Linear(n_embd, head_size, bias=False)
      self.value = nn.Linear(n_embd, head_size, bias=False)
      self.register_buffer('tril', torch.tril(torch.ones(block_size, block_size)))
      self.dropout = nn.Dropout(dropout)
  \<close>
\<close>

record head =
  head_key :: linear
  head_query :: linear
  head_value :: linear
  head_tril :: mat
  head_dropout :: real

definition tril_ones :: "nat \<Rightarrow> mat" where
  "tril_ones n = map (\<lambda>i. map (\<lambda>j. if j \<le> i then 1 else 0) [0..<n]) [0..<n]"

definition Head_init :: "real source \<Rightarrow> nat \<Rightarrow> nat \<Rightarrow> nat \<Rightarrow> real \<Rightarrow> error + head" where
  "Head_init ini head_size n_embd block_size p =
     (case Dropout_init p of
        Inl e \<Rightarrow> Inl e
      | Inr p' \<Rightarrow>
          Inr \<lparr>head_key = Linear_init (sub ini 0) n_embd head_size False,
               head_query = Linear_init (sub ini 1) n_embd head_size False,
               head_value = Linear_init (sub ini 2) n_embd head_size False,
               head_tril = tril_ones block_size,
               head_dropout = p'\<rparr>)"

text \<open>
  \<^verbatim>\<open>
  def forward(self, x):
      B,T,C = x.shape
      k = self.key(x)   # (B,T,C)
      q = self.query(x) # (B,T,C)
      # compute attention scores
      wei = q @ k.transpose(-2,-1) * C**-0.5 # (B, T, C) @ (B, C, T) -> (B, T, T)
      wei = wei.masked_fill(self.tril[:T, :T] == 0, float('-inf')) # (B, T, T)
      wei = F.softmax(wei, dim=-1) # (B, T, T)
      wei = self.dropout(wei)
      # perform the weighted aggregation of the values
      v = self.value(x) # (B,T,C)
      out = wei @ v # (B, T, T) @ (B, T, C) -> (B, T, C)
      return out
  \<close>
  The functions below take one sample \<open>x\<close> of shape \<open>(T, C)\<close>; the batch is processed
  sample by sample. \<open>C\<close> is the last entry of \<open>x.shape\<close>, the width of the rows of the
  input \<open>x\<close>: the embedding width, not the width \<open>head_size\<close> of the projections. (The
  rows of an empty \<open>x\<close> do not show their width; the model then reads it from \<open>self.key\<close>,
  which accepts no other width.)
\<close>

definition ncols :: "'a list list \<Rightarrow> nat" where
  "ncols x = (case x of [] \<Rightarrow> 0 | row # _ \<Rightarrow> length row)"

definition last_dim :: "head \<Rightarrow> mat \<Rightarrow> nat" where
  "last_dim h x = (if x = [] then lin_in (head_key h) else ncols x)"

text \<open>\<open>q @ k.transpose(-2,-1)\<close>: entry \<open>(t, t')\<close> is the inner product of row \<open>t\<close> of \<open>q\<close> and row \<open>t'\<close> of \<open>k\<close>.\<close>

definition dotv :: "vec \<Rightarrow> vec \<Rightarrow> real" where
  "dotv a b = (\<Sum>i<length a. a ! i * b ! i)"

definition matmul_transposed :: "mat \<Rightarrow> mat \<Rightarrow> error + mat" where
  "matmul_transposed q k =
     (if ncols q \<noteq> ncols k then Inl RuntimeError
      else Inr (map (\<lambda>qt. map (\<lambda>kt. dotv qt kt) k) q))"

text \<open>
  \<open>C**-0.5\<close> with the Python integer \<open>C\<close>: \<open>ZeroDivisionError\<close> for \<open>C = 0\<close>, else the real
  power.
\<close>

definition inv_sqrt :: "nat \<Rightarrow> error + real" where
  "inv_sqrt C = (if C = 0 then Inl ZeroDivisionError else Inr (real C powr (- (1 / 2))))"

text \<open>Line 208: the raw attention scores \<open>q @ k.transpose(-2,-1) * C**-0.5\<close>.\<close>

definition Head_scores :: "head \<Rightarrow> mat \<Rightarrow> error + mat" where
  "Head_scores h x =
     (let C = last_dim h x in
      case linear_fwd (head_key h) x of
        Inl e \<Rightarrow> Inl e
      | Inr k \<Rightarrow>
         (case linear_fwd (head_query h) x of
            Inl e \<Rightarrow> Inl e
          | Inr q \<Rightarrow>
             (case matmul_transposed q k of
                Inl e \<Rightarrow> Inl e
              | Inr qk \<Rightarrow>
                 (case inv_sqrt C of
                    Inl e \<Rightarrow> Inl e
                  | Inr s \<Rightarrow> Inr (map (map (\<lambda>v. v * s)) qk)))))"

text \<open>
  A score is a real number or minus infinity. \<open>self.tril[:T, :T] == 0\<close> is the Boolean
  matrix that is true where the buffer is zero. \<open>masked_fill\<close> broadcasts the mask to the
  shape of the scores: a mask of the same size is used entry by entry, a mask of size one
  is used for every entry, and any other size raises \<open>RuntimeError\<close>.
\<close>

datatype score = NegInf | Finite real

definition tril_mask :: "mat \<Rightarrow> nat \<Rightarrow> bool list list" where
  "tril_mask tril T = map (\<lambda>row. map (\<lambda>v. v = 0) (take T row)) (take T tril)"

definition masked_fill :: "mat \<Rightarrow> bool list list \<Rightarrow> error + score list list" where
  "masked_fill w msk =
     (if length msk = length w
      then Inr (map (\<lambda>i. map (\<lambda>j. if msk ! i ! j then NegInf else Finite (w ! i ! j))
                            [0..<length (w ! i)])
                    [0..<length w])
      else if length msk = 1
      then Inr (map (map (\<lambda>v. if msk ! 0 ! 0 then NegInf else Finite v)) w)
      else Inl RuntimeError)"

text \<open>
  Softmax over one row of scores: \<open>exp\<close> of minus infinity is zero. (A row of nothing but
  minus infinity would divide zero by zero; below, the diagonal entry of every row is
  finite.)
\<close>

definition exp_score :: "score \<Rightarrow> real" where
  "exp_score s = (case s of NegInf \<Rightarrow> 0 | Finite v \<Rightarrow> exp v)"

definition softmax_scores :: "score list \<Rightarrow> vec" where
  "softmax_scores row = map (\<lambda>s. exp_score s / sum_list (map exp_score row)) row"

text \<open>Lines 208 to 211: the attention weights \<open>wei\<close> after masking, softmax and dropout.\<close>

definition Head_weights :: "head \<Rightarrow> bool \<Rightarrow> bool source \<Rightarrow> mat \<Rightarrow> error + mat" where
  "Head_weights h training zeroed x =
     (case Head_scores h x of
        Inl e \<Rightarrow> Inl e
      | Inr wei \<Rightarrow>
         (case masked_fill wei (tril_mask (head_tril h) (length x)) of
            Inl e \<Rightarrow> Inl e
          | Inr masked \<Rightarrow>
              Inr (dropout (head_dropout h) training zeroed (map softmax_scores masked))))"

text \<open>\<open>wei @ v\<close>: row \<open>t\<close> of the result is the sum of the rows of \<open>v\<close> weighted by row \<open>t\<close> of \<open>wei\<close>.\<close>

definition matmul :: "mat \<Rightarrow> mat \<Rightarrow> error + mat" where
  "matmul a v =
     (if ncols a \<noteq> length v then Inl RuntimeError
      else Inr (map (\<lambda>arow. map (\<lambda>c. (\<Sum>j<length v. arow ! j * v ! j ! c)) [0..<ncols v]) a))"

definition Head_forward :: "head \<Rightarrow> bool \<Rightarrow> bool source \<Rightarrow> mat \<Rightarrow> error + mat" where
  "Head_forward h training zeroed x =
     (case Head_weights h training zeroed x of
        Inl e \<Rightarrow> Inl e
      | Inr wei \<Rightarrow>
         (case linear_fwd (head_value h) x of
            Inl e \<Rightarrow> Inl e
          | Inr v \<Rightarrow> matmul wei v))"

subsection \<open>\<open>MultiHeadAttention\<close>\<close>

text \<open>
  \<^verbatim>\<open>
  def __init__(self, num_heads, head_size, n_embd, block_size, head_dropout=0.1, multi_dropout=0.1):
      super().__init__()
      self.heads = nn.ModuleList([Head(head_size, n_embd, block_size, head_dropout) for _ in range(num_heads)])
      self.proj = nn.Linear(n_embd, n_embd)
      self.dropout = nn.Dropout(multi_dropout)

  def forward(self, x):
      out = torch.cat([h(x) for h in self.heads], dim=-1)
      out = self.dropout(self.proj(out))
      return out
  \<close>
\<close>

record mha =
  mha_heads :: "head list"
  mha_proj :: linear
  mha_dropout :: real

definition MultiHeadAttention_init ::
  "real source \<Rightarrow> nat \<Rightarrow> nat \<Rightarrow> nat \<Rightarrow> nat \<Rightarrow> real \<Rightarrow> real \<Rightarrow> error + mha" where
  "MultiHeadAttention_init ini num_heads head_size n_embd block_size head_p multi_p =
     (case map_err (\<lambda>i. Head_init (sub (sub ini 0) i) head_size n_embd block_size head_p)
                   [0..<num_heads] of
        Inl e \<Rightarrow> Inl e
      | Inr hs \<Rightarrow>
         (case Dropout_init multi_p of
            Inl e \<Rightarrow> Inl e
          | Inr p \<Rightarrow>
              Inr \<lparr>mha_heads = hs,
                   mha_proj = Linear_init (sub ini 1) n_embd n_embd True,
                   mha_dropout = p\<rparr>))"

text \<open>
  \<open>torch.cat(outs, dim=-1)\<close> joins the rows of the tensors side by side; it raises
  \<open>RuntimeError\<close> on an empty list and on tensors with different numbers of rows.
\<close>

definition cat_last :: "mat list \<Rightarrow> error + mat" where
  "cat_last outs =
     (if outs = [] then Inl RuntimeError
      else if \<exists>out\<in>set outs. length out \<noteq> length (hd outs) then Inl RuntimeError
      else Inr (map (\<lambda>t. concat (map (\<lambda>out. out ! t) outs)) [0..<length (hd outs)]))"

definition MultiHeadAttention_forward :: "mha \<Rightarrow> bool \<Rightarrow> bool source \<Rightarrow> mat \<Rightarrow> error + mat" where
  "MultiHeadAttention_forward a training zeroed x =
     (case map_err (\<lambda>i. Head_forward (mha_heads a ! i) training (sub (sub zeroed 0) i) x)
                   [0..<length (mha_heads a)] of
        Inl e \<Rightarrow> Inl e
      | Inr outs \<Rightarrow>
         (case cat_last outs of
            Inl e \<Rightarrow> Inl e
          | Inr out \<Rightarrow>
             (case linear_fwd (mha_proj a) out of
                Inl e \<Rightarrow> Inl e
              | Inr y \<Rightarrow> Inr (dropout (mha_dropout a) training (sub zeroed 1) y))))"

subsection \<open>\<open>FeedFoward\<close>\<close>

text \<open>
  \<^verbatim>\<open>
  def __init__(self, n_embd, wide = 4, dropout=0.1):
      super().__init__()
      self.widening = wide
      self.net = nn.Sequential(
          nn.Linear(n_embd, self.widening * n_embd),
          nn.ReLU(),
          nn.Linear(self.widening * n_embd, n_embd),
          nn.Dropout(dropout),
      )

  def forward(self, x):
      return self.net(x)
  \<close>
\<close>

record feed_forward =
  ff_widening :: nat
  ff_expand :: linear
  ff_contract :: linear
  ff_dropout :: real

definition FeedFoward_init :: "real source \<Rightarrow> nat \<Rightarrow> nat \<Rightarrow> real \<Rightarrow> error + feed_forward" where
  "FeedFoward_init ini n_embd wide p =
     (case Dropout_init p of
        Inl e \<Rightarrow> Inl e
      | Inr p' \<Rightarrow>
          Inr \<lparr>ff_widening = wide,
               ff_expand = Linear_init (sub ini 0) n_embd (wide * n_embd) True,
               ff_contract = Linear_init (sub ini 1) (wide * n_embd) n_embd True,
               ff_dropout = p'\<rparr>)"

definition relu :: "mat \<Rightarrow> mat" where
  "relu x = map (map (\<lambda>v. max 0 v)) x"

definition FeedFoward_forward :: "feed_forward \<Rightarrow> bool \<Rightarrow> bool source \<Rightarrow> mat \<Rightarrow> error + mat" where
  "FeedFoward_forward f training zeroed x =
     (case linear_fwd (ff_expand f) x of
        Inl e \<Rightarrow> Inl e
      | Inr h \<Rightarrow>
         (case linear_fwd (ff_contract f) (relu h) of
            Inl e \<Rightarrow> Inl e
          | Inr y \<Rightarrow> Inr (dropout (ff_dropout f) training zeroed y)))"

subsection \<open>\<open>Block\<close>\<close>

text \<open>
  \<^verbatim>\<open>
  def __init__(self, n_embd, n_head, block_size, widen = 4, head_dropout=0.1, multi_dropout=0.1, ff_dropout=0.1, block_dropout=0.1):
      # n_embd: embedding dimension, n_head: the number of heads we'd like
      super().__init__()
      head_size = n_embd // n_head
      self.sa = MultiHeadAttention(n_head, head_size, n_embd, block_size, head_dropout, multi_dropout)
      self.ffwd = FeedFoward(n_embd, widen, ff_dropout)
      self.ln1 = nn.LayerNorm(n_embd)
      self.ln2 = nn.LayerNorm(n_embd)
      self.dropout = nn.Dropout(block_dropout)

  def forward(self, x):
      x = x + self.sa(self.ln1(x)) # residual to attention block
      x = x + self.ffwd(self.ln2(x)) # residual to feed forward block
      return x
  \<close>
  The sizes are natural numbers; \<open>n_embd // n_head\<close> raises \<open>ZeroDivisionError\<close> for
  \<open>n_head = 0\<close>. The constructor contains no other check of its arguments than those of
  the dropout layers.
\<close>

record block =
  blk_sa :: mha
  blk_ffwd :: feed_forward
  blk_ln1 :: layer_norm
  blk_ln2 :: layer_norm
  blk_dropout :: real

definition Block_init ::
  "real source \<Rightarrow> nat \<Rightarrow> nat \<Rightarrow> nat \<Rightarrow> nat \<Rightarrow> real \<Rightarrow> real \<Rightarrow> real \<Rightarrow> real \<Rightarrow> error + block" where
  "Block_init ini n_embd n_head block_size widen head_p multi_p ff_p block_p =
     (if n_head = 0 then Inl ZeroDivisionError
      else
        let head_size = n_embd div n_head in
        case MultiHeadAttention_init (sub ini 0) n_head head_size n_embd block_size head_p multi_p of
          Inl e \<Rightarrow> Inl e
        | Inr sa \<Rightarrow>
           (case FeedFoward_init (sub ini 1) n_embd widen ff_p of
              Inl e \<Rightarrow> Inl e
            | Inr ffwd \<Rightarrow>
               (case Dropout_init block_p of
                  Inl e \<Rightarrow> Inl e
                | Inr p \<Rightarrow>
                    Inr \<lparr>blk_sa = sa, blk_ffwd = ffwd,
                         blk_ln1 = LayerNorm_init n_embd, blk_ln2 = LayerNorm_init n_embd,
                         blk_dropout = p\<rparr>)))"

text \<open>
  The sum of two tensors of the same shape. (Tensors of different shapes are broadcast or
  rejected by the library; the model rejects them. In \<open>Block.forward\<close> and in
  \<open>LanguageModel.forward\<close> the shapes are equal whenever the sum is reached.)
\<close>

definition mat_add :: "mat \<Rightarrow> mat \<Rightarrow> error + mat" where
  "mat_add a b =
     (if map length a \<noteq> map length b then Inl RuntimeError
      else Inr (map (\<lambda>(r, s). map (\<lambda>(v, w). v + w) (zip r s)) (zip a b)))"

definition Block_forward :: "block \<Rightarrow> bool \<Rightarrow> bool source \<Rightarrow> mat \<Rightarrow> error + mat" where
  "Block_forward b training zeroed x =
     (case layer_norm_fwd (blk_ln1 b) x of
        Inl e \<Rightarrow> Inl e
      | Inr n1 \<Rightarrow>
         (case MultiHeadAttention_forward (blk_sa b) training (sub zeroed 0) n1 of
            Inl e \<Rightarrow> Inl e
          | Inr att \<Rightarrow>
             (case mat_add x att of
                Inl e \<Rightarrow> Inl e
              | Inr x1 \<Rightarrow>
                 (case layer_norm_fwd (blk_ln2 b) x1 of
                    Inl e \<Rightarrow> Inl e
                  | Inr n2 \<Rightarrow>
                     (case FeedFoward_forward (blk_ffwd b) training (sub zeroed 1) n2 of
                        Inl e \<Rightarrow> Inl e
                      | Inr ff \<Rightarrow> mat_add x1 ff)))))"

subsection \<open>Calling a Python function\<close>

text \<open>
  A call binds the positional arguments to the first parameters and the keyword arguments
  by name; a parameter left unbound takes its default. The call raises \<open>TypeError\<close>, before
  the body runs, when there are more positional arguments than parameters, when a keyword
  names no parameter or one already bound by position, and when a parameter without a
  default is left unbound. A parameter is its name and its default, if any; the result is
  the list of the values of the parameters, in order.
\<close>

fun bind_params :: "(string \<times> 'v option) list \<Rightarrow> 'v list \<Rightarrow> (string \<times> 'v) list \<Rightarrow> error + 'v list" where
  "bind_params [] [] kws = Inr []"
| "bind_params [] (a # rest) kws = Inl TypeError"
| "bind_params ((name, dflt) # ps) (a # rest) kws =
     (if name \<in> fst ` set kws then Inl TypeError
      else case bind_params ps rest kws of Inl e \<Rightarrow> Inl e | Inr vs \<Rightarrow> Inr (a # vs))"
| "bind_params ((name, dflt) # ps) [] kws =
     (case (case map_of kws name of Some v \<Rightarrow> Some v | None \<Rightarrow> dflt) of
        None \<Rightarrow> Inl TypeError
      | Some v \<Rightarrow> (case bind_params ps [] kws of Inl e \<Rightarrow> Inl e | Inr vs \<Rightarrow> Inr (v # vs)))"

definition py_call :: "(string \<times> 'v option) list \<Rightarrow> 'v list \<Rightarrow> (string \<times> 'v) list \<Rightarrow> error + 'v list" where
  "py_call params args kws =
     (if \<exists>k\<in>fst ` set kws. k \<notin> fst ` set params then Inl TypeError
      else bind_params params args kws)"

datatype pyval = PInt nat | PFloat real

definition Block_params :: "(string \<times> pyval option) list" where
  "Block_params =
     [(''n_embd'', None), (''n_head'', None), (''block_size'', None),
      (''widen'', Some (PInt 4)),
      (''head_dropout'', Some (PFloat (1 / 10))), (''multi_dropout'', Some (PFloat (1 / 10))),
      (''ff_dropout'', Some (PFloat (1 / 10))), (''block_dropout'', Some (PFloat (1 / 10)))]"

text \<open>
  \<open>Block(...)\<close> as an expression: the arguments are bound, then the constructor runs. An
  argument is a Python integer (a natural number here) or a float.

  A dropout rate may be given as either: \<open>nn.Dropout\<close> only compares it with 0 and 1.

  A size must be an integer. \<open>n_embd // n_head\<close> comes first and raises
  \<open>ZeroDivisionError\<close> for a zero \<open>n_head\<close>, integer or float. After it, a float
  \<open>n_head\<close> is refused by \<open>range(num_heads)\<close>, a float \<open>n_embd\<close> (and with it the float
  \<open>head_size\<close>) by the first \<open>nn.Linear\<close> of the first head, and a float \<open>block_size\<close> by
  \<open>torch.ones\<close> in the first head: each is a \<open>TypeError\<close>, raised before any dropout layer
  is built. A float \<open>widen\<close> makes \<open>self.widening * n_embd\<close> a float, which the first
  \<open>nn.Linear\<close> of \<open>FeedFoward\<close> refuses with \<open>TypeError\<close>, after \<open>MultiHeadAttention\<close> has
  been built. (\<open>as_size\<close> is read only where \<open>is_int\<close> holds. The list of bound values has
  one entry for each of the eight parameters.)
\<close>

definition as_rate :: "pyval \<Rightarrow> real" where
  "as_rate v = (case v of PInt n \<Rightarrow> real n | PFloat r \<Rightarrow> r)"

definition is_zero :: "pyval \<Rightarrow> bool" where
  "is_zero v = (case v of PInt n \<Rightarrow> n = 0 | PFloat r \<Rightarrow> r = 0)"

definition is_int :: "pyval \<Rightarrow> bool" where
  "is_int v = (case v of PInt n \<Rightarrow> True | PFloat r \<Rightarrow> False)"

definition as_size :: "pyval \<Rightarrow> nat" where
  "as_size v = (case v of PInt n \<Rightarrow> n | PFloat r \<Rightarrow> 0)"

definition Block_call :: "real source \<Rightarrow> pyval list \<Rightarrow> (string \<times> pyval) list \<Rightarrow> error + block" where
  "Block_call ini args kws =
     (case py_call Block_params args kws of
        Inl e \<Rightarrow> Inl e
      | Inr vals \<Rightarrow>
         (case vals of
            [n_embd, n_head, block_size, widen, head_p, multi_p, ff_p, block_p] \<Rightarrow>
              if is_zero n_head then Inl ZeroDivisionError
              else if \<not> (is_int n_embd \<and> is_int n_head \<and> is_int block_size) then Inl TypeError
              else if is_int widen
              then Block_init ini (as_size n_embd) (as_size n_head) (as_size block_size)
                     (as_size widen)
                     (as_rate head_p) (as_rate multi_p) (as_rate ff_p) (as_rate block_p)
              else (case MultiHeadAttention_init (sub ini 0) (as_size n_head)
                           (as_size n_embd div as_size n_head) (as_size n_embd)
                           (as_size block_size) (as_rate head_p) (as_rate multi_p) of
                      Inl e \<Rightarrow> Inl e
                    | Inr sa \<Rightarrow> Inl TypeError)
          | _ \<Rightarrow> Inl TypeError))"
section \<open>The language model\<close>

text \<open>
  \<^verbatim>\<open>
  def __init__(self):
      super().__init__()
      # each token directly reads off the logits for the next token from a lookup table
      self.token_embedding_table = nn.Embedding(vocab_size, n_embd)
      self.position_embedding_table = nn.Embedding(block_size, n_embd)
      self.blocks = nn.Sequential(*[Block(n_embd, n_head=n_head) for _ in range(n_layer)])
      self.ln_f = nn.LayerNorm(n_embd)
      self.lm_head = nn.Linear(n_embd, vocab_size)
  \<close>
  \<open>vocab_size\<close>, \<open>n_embd\<close>, \<open>block_size\<close>, \<open>n_head\<close> and \<open>n_layer\<close> are globals of the
  notebook; here they are parameters. A module starts in training mode.
\<close>

record embedding =
  num_embeddings :: nat
  embedding_dim :: nat
  emb_weight :: "nat \<Rightarrow> nat \<Rightarrow> real"

definition Embedding_init :: "real source \<Rightarrow> nat \<Rightarrow> nat \<Rightarrow> embedding" where
  "Embedding_init ini n d = \<lparr>num_embeddings = n, embedding_dim = d, emb_weight = (\<lambda>i j. ini [i, j])\<rparr>"

record language_model =
  token_embedding_table :: embedding
  position_embedding_table :: embedding
  blocks :: "block list"
  ln_f :: layer_norm
  lm_head :: linear
  lm_training :: bool

definition LanguageModel_init ::
  "real source \<Rightarrow> nat \<Rightarrow> nat \<Rightarrow> nat \<Rightarrow> nat \<Rightarrow> nat \<Rightarrow> error + language_model" where
  "LanguageModel_init ini vocab n_embd block_size n_head n_layer =
     (case map_err (\<lambda>l. Block_call (sub (sub ini 2) l) [PInt n_embd] [(''n_head'', PInt n_head)])
                   [0..<n_layer] of
        Inl e \<Rightarrow> Inl e
      | Inr bs \<Rightarrow>
          Inr \<lparr>token_embedding_table = Embedding_init (sub ini 0) vocab n_embd,
               position_embedding_table = Embedding_init (sub ini 1) block_size n_embd,
               blocks = bs,
               ln_f = LayerNorm_init n_embd,
               lm_head = Linear_init (sub ini 3) n_embd vocab True,
               lm_training = True\<rparr>)"

text \<open>An embedding lookup raises \<open>IndexError\<close> for an index outside the table.\<close>

definition embedding_row :: "embedding \<Rightarrow> int \<Rightarrow> error + vec" where
  "embedding_row E i =
     (if 0 \<le> i \<and> i < int (num_embeddings E)
      then Inr (map (emb_weight E (nat i)) [0..<embedding_dim E])
      else Inl IndexError)"

text \<open>\<open>nn.Sequential\<close>: the blocks run one after the other.\<close>

fun blocks_forward :: "block list \<Rightarrow> bool \<Rightarrow> bool source \<Rightarrow> nat \<Rightarrow> mat \<Rightarrow> error + mat" where
  "blocks_forward [] training zeroed l x = Inr x"
| "blocks_forward (b # bs) training zeroed l x =
     (case Block_forward b training (sub zeroed l) x of
        Inl e \<Rightarrow> Inl e
      | Inr y \<Rightarrow> blocks_forward bs training zeroed (Suc l) y)"

text \<open>
  \<open>F.cross_entropy(logits, targets)\<close> with its defaults, on logits of shape \<open>(N, C)\<close> and
  \<open>N\<close> class indices: the mean, over the targets other than \<open>ignore_index = -100\<close>, of
  minus the log-softmax of the row at its target. It raises \<open>ValueError\<close> when the numbers
  of rows and of targets differ and \<open>IndexError\<close> for a target outside \<open>[0, C)\<close>. The mean
  of no terms is zero divided by zero, which the library returns as not-a-number: \<open>NaN\<close>.
\<close>

datatype loss = NaN | Loss real

definition log_softmax_at :: "vec \<Rightarrow> nat \<Rightarrow> real" where
  "log_softmax_at row y = row ! y - ln (sum_list (map exp row))"

definition cross_entropy :: "mat \<Rightarrow> int list \<Rightarrow> error + loss" where
  "cross_entropy logits targets =
     (if length logits \<noteq> length targets then Inl ValueError
      else if \<exists>(row, y)\<in>set (zip logits targets). y \<noteq> - 100 \<and> (y < 0 \<or> int (length row) \<le> y)
      then Inl IndexError
      else
        let kept = filter (\<lambda>(row, y). y \<noteq> - 100) (zip logits targets) in
        if kept = [] then Inr NaN
        else Inr (Loss (sum_list (map (\<lambda>(row, y). - log_softmax_at row (nat y)) kept)
                        / real (length kept))))"

text \<open>
  \<^verbatim>\<open>
  def forward(self, idx, targets=None):
      B, T = idx.shape

      # idx and targets are both (B,T) tensor of integers
      tok_emb = self.token_embedding_table(idx) # (B,T,C)
      pos_emb = self.position_embedding_table(torch.arange(T, device=device)) # (T,C)
      x = tok_emb + pos_emb # (B,T,C)
      x = self.blocks(x) # (B,T,C)
      x = self.ln_f(x) # (B,T,C)
      logits = self.lm_head(x) # (B,T,vocab_size)

      if targets is None:
          loss = None
      else:
          B, T, C = logits.shape
          logits = logits.view(B*T, C)
          targets = targets.view(B*T)
          loss = F.cross_entropy(logits, targets)

      return logits, loss
  \<close>
  \<open>idx\<close> is the list of its \<open>B\<close> rows, each of \<open>T\<close> token ids; \<open>T\<close> is read off the first
  row (a batch without rows does not show its \<open>T\<close>, which the model then takes as zero).
  The token embeddings of the whole batch are looked up first, then the position
  embeddings; the layers after them run sample by sample, which gives the same result as
  running each layer on the whole batch, since whether a layer raises depends on the
  shapes alone and these are the same for every sample. The returned logits are the
  three-dimensional tensor when no targets are given, and the tensor reshaped by
  \<open>view(B*T, C)\<close> when targets are given: the name \<open>logits\<close> is rebound before the
  \<open>return\<close>. \<open>targets.view(B*T)\<close> raises \<open>RuntimeError\<close> when the targets do not have
  \<open>B*T\<close> entries.
\<close>

datatype logits = Logits3 "mat list" | Logits2 mat

definition forward ::
  "language_model \<Rightarrow> bool source \<Rightarrow> int list list \<Rightarrow> int list list option
     \<Rightarrow> error + (logits \<times> loss option)" where
  "forward m zeroed idx targets =
     (let T = ncols idx in
      case map_err (map_err (embedding_row (token_embedding_table m))) idx of
        Inl e \<Rightarrow> Inl e
      | Inr tok_emb \<Rightarrow>
         (case map_err (embedding_row (position_embedding_table m)) (map int [0..<T]) of
            Inl e \<Rightarrow> Inl e
          | Inr pos_emb \<Rightarrow>
             (case map_err (\<lambda>tok. mat_add tok pos_emb) tok_emb of
                Inl e \<Rightarrow> Inl e
              | Inr x \<Rightarrow>
                 (case map_err (\<lambda>b. blocks_forward (blocks m) (lm_training m) (sub zeroed b) 0 (x ! b))
                               [0..<length x] of
                    Inl e \<Rightarrow> Inl e
                  | Inr x1 \<Rightarrow>
                     (case map_err (layer_norm_fwd (ln_f m)) x1 of
                        Inl e \<Rightarrow> Inl e
                      | Inr x2 \<Rightarrow>
                         (case map_err (linear_fwd (lm_head m)) x2 of
                            Inl e \<Rightarrow> Inl e
                          | Inr lg \<Rightarrow>
                             (case targets of
                                None \<Rightarrow> Inr (Logits3 lg, None)
                              | Some tg \<Rightarrow>
                                 (if length (concat tg) \<noteq> length (concat lg) then Inl RuntimeError
                                  else case cross_entropy (concat lg) (concat tg) of
                                         Inl e \<Rightarrow> Inl e
                                       | Inr l \<Rightarrow> Inr (Logits2 (concat lg), Some l)))))))))"

text \<open>
  \<^verbatim>\<open>
  def generate(self, idx, max_new_tokens):
      # idx is (B, T) array of indices in the current context
      for _ in range(max_new_tokens):
          # crop idx to the last block_size tokens
          idx_cond = idx[:, -block_size:]
          # get the predictions
          logits, loss = self(idx_cond)
          # focus only on the last time step
          logits = logits[:, -1, :] # becomes (B, C)
          # apply softmax to get probabilities
          probs = F.softmax(logits, dim=-1) # (B, C)
          # sample from the distribution
          idx_next = torch.multinomial(probs, num_samples=1) # (B, 1)
          # append sampled index to the running sequence
          idx = torch.cat((idx, idx_next), dim=1) # (B, T+1)
      return idx
  \<close>
  The slice \<open>row[-block_size:]\<close> is the last \<open>block_size\<close> entries of the row, and the
  whole row for \<open>block_size = 0\<close> (where \<open>-0\<close> is \<open>0\<close>). \<open>logits[:, -1, :]\<close> raises
  \<open>IndexError\<close> when the time axis is empty.
\<close>

definition crop :: "nat \<Rightarrow> 'a list \<Rightarrow> 'a list" where
  "crop block_size row = (if block_size = 0 then row else drop (length row - block_size) row)"

definition last_step :: "mat \<Rightarrow> error + vec" where
  "last_step sample_logits = (if sample_logits = [] then Inl IndexError else Inr (last sample_logits))"

definition softmax :: "vec \<Rightarrow> vec" where
  "softmax row = map (\<lambda>v. exp v / sum_list (map exp row)) row"

text \<open>
  \<open>torch.multinomial(probs, num_samples=1)\<close> draws, for each row, an index distributed as
  the row; it raises \<open>RuntimeError\<close> on rows without entries. The draw is made from one
  uniform number \<open>u\<close> of \<open>[0, 1)\<close> by walking the cumulative sums of the row.
\<close>

fun pick :: "real \<Rightarrow> vec \<Rightarrow> nat" where
  "pick u [] = 0"
| "pick u [p] = 0"
| "pick u (p # q # ps) = (if u < p then 0 else Suc (pick (u - p) (q # ps)))"

definition multinomial :: "real \<Rightarrow> vec \<Rightarrow> error + int" where
  "multinomial u probs = (if probs = [] then Inl RuntimeError else Inr (int (pick u probs)))"

text \<open>One pass through the body of the loop; \<open>unif [b]\<close> is the uniform draw for row \<open>b\<close>.\<close>

definition generate_step ::
  "language_model \<Rightarrow> nat \<Rightarrow> bool source \<Rightarrow> real source \<Rightarrow> int list list \<Rightarrow> error + int list list" where
  "generate_step m block_size zeroed unif idx =
     (let idx_cond = map (crop block_size) idx in
      case forward m zeroed idx_cond None of
        Inl e \<Rightarrow> Inl e
      | Inr (Logits2 lg, loss) \<Rightarrow> Inl IndexError
      | Inr (Logits3 lg, loss) \<Rightarrow>
         (case map_err last_step lg of
            Inl e \<Rightarrow> Inl e
          | Inr final \<Rightarrow>
             (case map_err (\<lambda>b. multinomial (unif [b]) (softmax (final ! b))) [0..<length final] of
                Inl e \<Rightarrow> Inl e
              | Inr idx_next \<Rightarrow> Inr (map (\<lambda>(row, tok). row @ [tok]) (zip idx idx_next)))))"

text \<open>The loop: \<open>k\<close> counts the passes made so far, \<open>n\<close> those still to make.\<close>

fun generate_loop ::
  "language_model \<Rightarrow> nat \<Rightarrow> bool source \<Rightarrow> real source \<Rightarrow> nat \<Rightarrow> int list list \<Rightarrow> nat
     \<Rightarrow> error + int list list" where
  "generate_loop m block_size zeroed unif k idx 0 = Inr idx"
| "generate_loop m block_size zeroed unif k idx (Suc n) =
     (case generate_step m block_size (sub zeroed k) (sub unif k) idx of
        Inl e \<Rightarrow> Inl e
      | Inr idx' \<Rightarrow> generate_loop m block_size zeroed unif (Suc k) idx' n)"

definition generate ::
  "language_model \<Rightarrow> nat \<Rightarrow> bool source \<Rightarrow> real source \<Rightarrow> int list list \<Rightarrow> nat
     \<Rightarrow> error + int list list" where
  "generate m block_size zeroed unif idx max_new_tokens =
     generate_loop m block_size zeroed unif 0 idx max_new_tokens"

section \<open>Loss estimation and the training loop\<close>

text \<open>The hyperparameters are globals of the notebook; here they are the fields of a record.\<close>

record hyper =
  hp_batch_size :: nat
  hp_block_size :: nat
  hp_max_iters :: nat
  hp_eval_interval :: nat
  hp_eval_iters :: nat
  hp_n_embd :: nat
  hp_n_head :: nat
  hp_n_layer :: nat

definition notebook_hyper :: hyper where
  "notebook_hyper =
     \<lparr>hp_batch_size = 256, hp_block_size = 64, hp_max_iters = 1000, hp_eval_interval = 100,
      hp_eval_iters = 100, hp_n_embd = 64, hp_n_head = 16, hp_n_layer = 8\<rparr>"

text \<open>
  \<^verbatim>\<open>
  @torch.no_grad()
  def estimate_loss(mode: str, model: nn.Module):
      out = {}
      splits = []
      model.eval()
      # Determine datasets to be used
      if mode == "train":
          splits = ['train', 'dev']
      elif mode == "test":
          splits = ['test']

      # Calculate losses for chosen datasets
      for split in splits:
          losses = torch.zeros(eval_iters)
          for k in range(eval_iters):
              X, Y = get_batch(split)
              logits, loss = model(X, Y)
              losses[k] = loss.item()
          out[split] = losses.mean()
      model.train()
      return out
  \<close>
  The mean of a tensor is not-a-number when the tensor is empty or holds a not-a-number.
  \<open>raw\<close> holds the raw draws of the batch sampler and \<open>zeroed\<close> the draws of the dropout
  layers, addressed by split and by pass.
\<close>

definition mean_loss :: "loss list \<Rightarrow> loss" where
  "mean_loss ls =
     (if ls = [] \<or> NaN \<in> set ls then NaN
      else Loss (sum_list (map (\<lambda>l. case l of Loss v \<Rightarrow> v | NaN \<Rightarrow> 0) ls) / real (length ls)))"

definition split_loss ::
  "corpus \<Rightarrow> hyper \<Rightarrow> nat source \<Rightarrow> bool source \<Rightarrow> language_model \<Rightarrow> string \<Rightarrow> error + loss" where
  "split_loss c hp raw zeroed m split =
     (case map_err
             (\<lambda>k. case get_batch c (hp_block_size hp) (hp_batch_size hp) (\<lambda>i. raw [k, i]) split of
                     Inl e \<Rightarrow> Inl e
                   | Inr (X, Y) \<Rightarrow>
                      (case forward m (sub zeroed k) X (Some Y) of
                         Inl e \<Rightarrow> Inl e
                       | Inr (lg, None) \<Rightarrow> Inl AttributeError
                       | Inr (lg, Some l) \<Rightarrow> Inr l))
             [0..<hp_eval_iters hp] of
        Inl e \<Rightarrow> Inl e
      | Inr losses \<Rightarrow> Inr (mean_loss losses))"

definition estimate_loss ::
  "corpus \<Rightarrow> hyper \<Rightarrow> nat source \<Rightarrow> bool source \<Rightarrow> string \<Rightarrow> language_model
     \<Rightarrow> error + ((string \<rightharpoonup> loss) \<times> language_model)" where
  "estimate_loss c hp raw zeroed mode m =
     (let m_eval = m\<lparr>lm_training := False\<rparr>;
          splits = (if mode = ''train'' then [''train'', ''dev'']
                    else if mode = ''test'' then [''test'']
                    else [])
      in case map_err
                (\<lambda>j. case split_loss c hp (sub raw j) (sub zeroed j) m_eval (splits ! j) of
                        Inl e \<Rightarrow> Inl e
                      | Inr l \<Rightarrow> Inr (splits ! j, l))
                [0..<length splits] of
           Inl e \<Rightarrow> Inl e
         | Inr out \<Rightarrow> Inr (dict_of out, m\<lparr>lm_training := True\<rparr>))"

text \<open>
  \<open>estimate_loss\<close> has two parameters, \<open>mode\<close> and \<open>model\<close>, neither with a default. A call
  binds its arguments first. (An argument of the wrong kind is not modelled further and
  counts as an \<open>AttributeError\<close>.)
\<close>

datatype call_arg = AStr string | AModel language_model

definition estimate_loss_params :: "(string \<times> call_arg option) list" where
  "estimate_loss_params = [(''mode'', None), (''model'', None)]"

definition estimate_loss_call ::
  "corpus \<Rightarrow> hyper \<Rightarrow> nat source \<Rightarrow> bool source \<Rightarrow> call_arg list \<Rightarrow> (string \<times> call_arg) list
     \<Rightarrow> error + ((string \<rightharpoonup> loss) \<times> language_model)" where
  "estimate_loss_call c hp raw zeroed args kws =
     (case py_call estimate_loss_params args kws of
        Inl e \<Rightarrow> Inl e
      | Inr vals \<Rightarrow>
         (case vals of
            [AStr mode, AModel m] \<Rightarrow> estimate_loss c hp raw zeroed mode m
          | _ \<Rightarrow> Inl AttributeError))"

text \<open>
  \<^verbatim>\<open>
  model = LanguageModel().to(device)

  # create a PyTorch optimizer and learning rate scheduler
  optimizer = torch.optim.AdamW(model.parameters(), lr=learning_rate)
  scheduler = torch.optim.lr_scheduler.OneCycleLR(optimizer, max_lr=learning_rate, steps_per_epoch=len(train_encoded) // batch_size, epochs=max_iters)

  for iter in range(max_iters):
      # Calculate validation loss after fixed interval
      if iter % eval_interval == 0 or iter == max_iters - 1:
          losses = estimate_loss("train")
          bpc = losses['dev'] / torch.log(torch.tensor(2.0))
          print(f"Epoch {iter}: | Train loss {losses['train']:.4f} | Validation loss {losses['dev']:.4f} | BPC: {bpc:.4f}")

          # Write the losses to a csv file
          with open(loss_file, 'a') as f:
              f.write(f"{iter},{losses['train']},{losses['dev']},{bpc:.4f}\n")

      # Sample batch of training data
      xb, yb = get_batch('train')

      # Feed data to model to model and evaluate inputs
      logits, loss = model(xb, yb)
      optimizer.zero_grad()
      loss.backward()
      optimizer.step()

      # Update the learning rate
      scheduler.step()
  \<close>
  The loss file is the list of the records appended to it; it keeps what was appended when
  an exception ends the run. Back-propagation, the optimizer and the learning-rate
  schedule are the library's: \<open>update\<close> stands for their combined effect on the model in
  one pass (and may raise).
\<close>

record loss_record =
  rec_iter :: nat
  rec_train_loss :: loss
  rec_val_loss :: loss
  rec_bpc :: loss

record train_state =
  ts_model :: language_model
  ts_log :: "loss_record list"

definition loss_div :: "loss \<Rightarrow> real \<Rightarrow> loss" where
  "loss_div l d = (case l of NaN \<Rightarrow> NaN | Loss v \<Rightarrow> Loss (v / d))"

text \<open>Lines 543 to 550: the evaluation at the head of a pass.\<close>

definition evaluate_and_log ::
  "corpus \<Rightarrow> hyper \<Rightarrow> nat source \<Rightarrow> bool source \<Rightarrow> nat \<Rightarrow> train_state \<Rightarrow> error + train_state" where
  "evaluate_and_log c hp raw zeroed iter st =
     (case estimate_loss_call c hp raw zeroed [AStr ''train''] [] of
        Inl e \<Rightarrow> Inl e
      | Inr (losses, m') \<Rightarrow>
         (case losses ''dev'' of
            None \<Rightarrow> Inl KeyError
          | Some dev \<Rightarrow>
             (case losses ''train'' of
                None \<Rightarrow> Inl KeyError
              | Some train \<Rightarrow>
                  Inr (st\<lparr>ts_model := m',
                          ts_log := ts_log st @
                            [\<lparr>rec_iter = iter, rec_train_loss = train, rec_val_loss = dev,
                              rec_bpc = loss_div dev (ln 2)\<rparr>]\<rparr>))))"

definition train_iter ::
  "corpus \<Rightarrow> hyper \<Rightarrow> nat source \<Rightarrow> bool source
     \<Rightarrow> (nat \<Rightarrow> language_model \<Rightarrow> int list list \<Rightarrow> int list list \<Rightarrow> error + language_model)
     \<Rightarrow> nat \<Rightarrow> train_state \<Rightarrow> error option \<times> train_state" where
  "train_iter c hp raw zeroed update iter st =
     (if hp_eval_interval hp = 0 then (Some ZeroDivisionError, st)
      else
        case (if iter mod hp_eval_interval hp = 0 \<or> int iter = int (hp_max_iters hp) - 1
              then evaluate_and_log c hp (sub (sub raw iter) 0) (sub (sub zeroed iter) 0) iter st
              else Inr st) of
          Inl e \<Rightarrow> (Some e, st)
        | Inr st1 \<Rightarrow>
           (case get_batch c (hp_block_size hp) (hp_batch_size hp) (\<lambda>i. raw [iter, 1, i]) ''train'' of
              Inl e \<Rightarrow> (Some e, st1)
            | Inr (xb, yb) \<Rightarrow>
               (case forward (ts_model st1) (sub (sub zeroed iter) 1) xb (Some yb) of
                  Inl e \<Rightarrow> (Some e, st1)
                | Inr (lg, loss) \<Rightarrow>
                   (case update iter (ts_model st1) xb yb of
                      Inl e \<Rightarrow> (Some e, st1)
                    | Inr m' \<Rightarrow> (None, st1\<lparr>ts_model := m'\<rparr>)))))"

text \<open>A \<open>for\<close> loop over a list of indices whose body can raise.\<close>

fun for_range :: "(nat \<Rightarrow> 's \<Rightarrow> error option \<times> 's) \<Rightarrow> nat list \<Rightarrow> 's \<Rightarrow> error option \<times> 's" where
  "for_range body [] s = (None, s)"
| "for_range body (i # rest) s =
     (case body i s of
        (Some e, s') \<Rightarrow> (Some e, s')
      | (None, s') \<Rightarrow> for_range body rest s')"

definition training_loop ::
  "corpus \<Rightarrow> hyper \<Rightarrow> nat source \<Rightarrow> bool source
     \<Rightarrow> (nat \<Rightarrow> language_model \<Rightarrow> int list list \<Rightarrow> int list list \<Rightarrow> error + language_model)
     \<Rightarrow> train_state \<Rightarrow> error option \<times> train_state" where
  "training_loop c hp raw zeroed update st =
     for_range (train_iter c hp raw zeroed update) [0..<hp_max_iters hp] st"

text \<open>The whole cell: the model is constructed, then the loop runs.\<close>

definition training_cell ::
  "corpus \<Rightarrow> hyper \<Rightarrow> nat \<Rightarrow> real source \<Rightarrow> nat source \<Rightarrow> bool source
     \<Rightarrow> (nat \<Rightarrow> language_model \<Rightarrow> int list list \<Rightarrow> int list list \<Rightarrow> error + language_model)
     \<Rightarrow> loss_record list \<Rightarrow> error option \<times> loss_record list" where
  "training_cell c hp vocab ini raw zeroed update log0 =
     (case LanguageModel_init ini vocab (hp_n_embd hp) (hp_block_size hp) (hp_n_head hp) (hp_n_layer hp) of
        Inl e \<Rightarrow> (Some e, log0)
      | Inr m \<Rightarrow>
         (case training_loop c hp raw zeroed update \<lparr>ts_model = m, ts_log = log0\<rparr> of
            (e, st) \<Rightarrow> (e, ts_log st)))"

section \<open>Shapes and well-formed modules\<close>

text \<open>\<open>is_mat T C x\<close>: the tensor \<open>x\<close> has shape \<open>(T, C)\<close>.\<close>

definition is_mat :: "nat \<Rightarrow> nat \<Rightarrow> 'a list list \<Rightarrow> bool" where
  "is_mat T C x \<longleftrightarrow> length x = T \<and> list_all (\<lambda>row. length row = C) x"

text \<open>
  The sizes that the constructors give to the parts of a module, for an embedding width
  \<open>C\<close>, a head width \<open>hs\<close>, a context length \<open>bs\<close> and a vocabulary of \<open>V\<close> tokens. A block is
  well formed when its heads together restore the embedding width; a model is well formed
  when its parts agree on \<open>C\<close>, its embedding width is positive and its blocks were built
  for the context length of its position table.
\<close>

definition wf_head :: "nat \<Rightarrow> nat \<Rightarrow> nat \<Rightarrow> head \<Rightarrow> bool" where
  "wf_head C hs bs h \<longleftrightarrow>
     lin_in (head_key h) = C \<and> lin_out (head_key h) = hs
   \<and> lin_in (head_query h) = C \<and> lin_out (head_query h) = hs
   \<and> lin_in (head_value h) = C \<and> lin_out (head_value h) = hs
   \<and> head_tril h = tril_ones bs"

definition wf_mha :: "nat \<Rightarrow> nat \<Rightarrow> mha \<Rightarrow> bool" where
  "wf_mha C bs a \<longleftrightarrow>
     mha_heads a \<noteq> []
   \<and> list_all (wf_head C (C div length (mha_heads a)) bs) (mha_heads a)
   \<and> length (mha_heads a) * (C div length (mha_heads a)) = C
   \<and> lin_in (mha_proj a) = C \<and> lin_out (mha_proj a) = C"

definition wf_ff :: "nat \<Rightarrow> feed_forward \<Rightarrow> bool" where
  "wf_ff C f \<longleftrightarrow>
     lin_in (ff_expand f) = C \<and> lin_out (ff_expand f) = lin_in (ff_contract f)
   \<and> lin_out (ff_contract f) = C"

definition wf_block :: "nat \<Rightarrow> nat \<Rightarrow> block \<Rightarrow> bool" where
  "wf_block C bs b \<longleftrightarrow>
     wf_mha C bs (blk_sa b) \<and> wf_ff C (blk_ffwd b)
   \<and> ln_dim (blk_ln1 b) = C \<and> ln_dim (blk_ln2 b) = C"

definition n_embd_of :: "language_model \<Rightarrow> nat" where
  "n_embd_of m = embedding_dim (token_embedding_table m)"

definition vocab_of :: "language_model \<Rightarrow> nat" where
  "vocab_of m = num_embeddings (token_embedding_table m)"

definition block_size_of :: "language_model \<Rightarrow> nat" where
  "block_size_of m = num_embeddings (position_embedding_table m)"

definition wf_model :: "language_model \<Rightarrow> bool" where
  "wf_model m \<longleftrightarrow>
     0 < n_embd_of m
   \<and> embedding_dim (position_embedding_table m) = n_embd_of m
   \<and> list_all (wf_block (n_embd_of m) (block_size_of m)) (blocks m)
   \<and> ln_dim (ln_f m) = n_embd_of m
   \<and> lin_in (lm_head m) = n_embd_of m \<and> lin_out (lm_head m) = vocab_of m"

section \<open>Concrete inputs\<close>

text \<open>
  The end-to-end scenario of the written specification: the vocabulary \<open>{a, b}\<close> with ids
  0 and 1 and the corpus \<open>aabb\<close>.
\<close>

definition corpus_aabb :: corpus where
  "corpus_aabb = \<lparr>train_encoded = [0, 0, 1, 1], dev_encoded = [], test_encoded = []\<rparr>"

text \<open>
  A small model with every parameter zero: two tokens, embedding width one, context length
  two, one block with one head. Its block is what \<open>Block(1, 1, 2)\<close> constructs from the
  zero initial values.
\<close>

definition zero_init :: "real source" where
  "zero_init = (\<lambda>p. 0)"

definition tiny_head :: head where
  "tiny_head =
     \<lparr>head_key = Linear_init zero_init 1 1 False,
      head_query = Linear_init zero_init 1 1 False,
      head_value = Linear_init zero_init 1 1 False,
      head_tril = tril_ones 2,
      head_dropout = 1 / 10\<rparr>"

definition tiny_block :: block where
  "tiny_block =
     \<lparr>blk_sa = \<lparr>mha_heads = [tiny_head], mha_proj = Linear_init zero_init 1 1 True,
                mha_dropout = 1 / 10\<rparr>,
      blk_ffwd = \<lparr>ff_widening = 4, ff_expand = Linear_init zero_init 1 4 True,
                  ff_contract = Linear_init zero_init 4 1 True, ff_dropout = 1 / 10\<rparr>,
      blk_ln1 = LayerNorm_init 1, blk_ln2 = LayerNorm_init 1,
      blk_dropout = 1 / 10\<rparr>"

definition tiny_model :: language_model where
  "tiny_model =
     \<lparr>token_embedding_table = Embedding_init zero_init 2 1,
      position_embedding_table = Embedding_init zero_init 2 1,
      blocks = [tiny_block],
      ln_f = LayerNorm_init 1,
      lm_head = Linear_init zero_init 1 2 True,
      lm_training = True\<rparr>"

text \<open>
  A head in the configuration the claim about the scaling is about: embedding width 4,
  head width 1, every projection weight one.
\<close>

definition ones_head :: head where
  "ones_head =
     \<lparr>head_key = \<lparr>lin_in = 4, lin_out = 1, lin_weight = (\<lambda>out i. 1), lin_bias = None\<rparr>,
      head_query = \<lparr>lin_in = 4, lin_out = 1, lin_weight = (\<lambda>out i. 1), lin_bias = None\<rparr>,
      head_value = \<lparr>lin_in = 4, lin_out = 1, lin_weight = (\<lambda>out i. 1), lin_bias = None\<rparr>,
      head_tril = tril_ones 2,
      head_dropout = 1 / 10\<rparr>"

text \<open>
  Fixed sources of randomness: no entry is ever dropped, and every uniform draw of the
  token sampler is \<open>3/4\<close>.
\<close>

definition no_drop :: "bool source" where
  "no_drop = (\<lambda>p. False)"

definition three_quarters :: "real source" where
  "three_quarters = (\<lambda>p. 3 / 4)"

text \<open>
  The block of the divisibility scenario of the written specification, \<open>Block(65, 16, 64)\<close>
  from the zero initial values: sixteen heads of width \<open>65 // 16 = 4\<close>.
\<close>

definition uneven_head :: head where
  "uneven_head =
     \<lparr>head_key = Linear_init zero_init 65 4 False,
      head_query = Linear_init zero_init 65 4 False,
      head_value = Linear_init zero_init 65 4 False,
      head_tril = tril_ones 64,
      head_dropout = 1 / 10\<rparr>"

definition uneven_block :: block where
  "uneven_block =
     \<lparr>blk_sa = \<lparr>mha_heads = replicate 16 uneven_head, mha_proj = Linear_init zero_init 65 65 True,
                mha_dropout = 1 / 10\<rparr>,
      blk_ffwd = \<lparr>ff_widening = 4, ff_expand = Linear_init zero_init 65 260 True,
                  ff_contract = Linear_init zero_init 260 65 True, ff_dropout = 1 / 10\<rparr>,
      blk_ln1 = LayerNorm_init 65, blk_ln2 = LayerNorm_init 65,
      blk_dropout = 1 / 10\<rparr>"

text \<open>
  The head that \<open>Head(1, 1, 1)\<close> constructs from the zero initial values: embedding width
  one, head width one and a mask buffer for a context of one position.
\<close>

definition narrow_head :: head where
  "narrow_head =
     \<lparr>head_key = Linear_init zero_init 1 1 False,
      head_query = Linear_init zero_init 1 1 False,
      head_value = Linear_init zero_init 1 1 False,
      head_tril = tril_ones 1,
      head_dropout = 1 / 10\<rparr>"

section \<open>Properties of the vocabulary and tokenizer\<close>

text \<open>
  A dictionary built from pairs with distinct keys is the association list of the pairs;
  the characters of the vocabulary are distinct, so both dictionaries are plain lookups in
  the enumeration of \<open>used_chars\<close>.
\<close>

lemma fold_upd_map_of:
  "fold (\<lambda>(k, v) m. m(k \<mapsto> v)) kvs m0 = m0 ++ map_of (rev kvs)"
proof (induction kvs arbitrary: m0)
  case Nil
  then show ?case by simp
next
  case (Cons kv kvs)
  obtain k v where kv: "kv = (k, v)" by (cases kv)
  have "m0(k \<mapsto> v) ++ map_of (rev kvs) = m0 ++ ([k \<mapsto> v] ++ map_of (rev kvs))"
    by (rule ext) (simp add: map_add_def split: option.splits)
  moreover have "fold (\<lambda>(k, v) m. m(k \<mapsto> v)) (kv # kvs) m0
      = fold (\<lambda>(k, v) m. m(k \<mapsto> v)) kvs (m0(k \<mapsto> v))"
    by (simp add: kv)
  moreover have "map_of (rev (kv # kvs)) = [k \<mapsto> v] ++ map_of (rev kvs)"
    by (simp add: kv)
  ultimately show ?case using Cons.IH[of "m0(k \<mapsto> v)"] by (simp only:)
qed

lemma dict_of_map_of: "dict_of kvs = map_of (rev kvs)"
  by (simp add: dict_of_def fold_upd_map_of)

lemma dict_of_distinct:
  assumes "distinct (map fst kvs)"
  shows "dict_of kvs = map_of kvs"
proof -
  have "distinct (map fst (rev kvs))" using assms by (simp add: rev_map[symmetric])
  then have "map_of (rev kvs) = map_of kvs"
    by (intro map_of_inject_set[THEN iffD2]) (use assms in auto)
  then show ?thesis by (simp add: dict_of_map_of)
qed

lemma used_chars_distinct: "distinct (used_chars t)"
  by (simp add: used_chars_def)

lemma used_chars_set: "set (used_chars t) = set t"
  by (simp add: used_chars_def)

lemma used_chars_sorted: "sorted (used_chars t)"
  by (simp add: used_chars_def)

lemma vocab_size_card: "vocab_size t = card (set t)"
  using distinct_card[OF used_chars_distinct, of t] by (simp add: vocab_size_def used_chars_set)

lemma map_swap_zip: "map (\<lambda>(i, ch). (ch, i)) (zip xs ys) = zip ys xs"
  by (induction xs ys rule: list_induct2') auto

lemma char_to_int_eq:
  "char_to_int t = map_of (zip (used_chars t) (map int [0..<vocab_size t]))"
proof -
  have e: "map (\<lambda>(i, ch). (ch, i)) (py_enumerate (used_chars t))
        = zip (used_chars t) (map int [0..<vocab_size t])"
    by (simp add: py_enumerate_def vocab_size_def map_swap_zip)
  show ?thesis unfolding char_to_int_def e
    by (rule dict_of_distinct) (simp add: vocab_size_def used_chars_distinct)
qed

lemma int_to_char_eq:
  "int_to_char t = map_of (zip (map int [0..<vocab_size t]) (used_chars t))"
proof -
  have e: "map (\<lambda>(i, ch). (i, ch)) (py_enumerate (used_chars t))
        = zip (map int [0..<vocab_size t]) (used_chars t)"
    by (simp add: py_enumerate_def vocab_size_def)
  show ?thesis unfolding int_to_char_def e
    by (rule dict_of_distinct) (simp add: vocab_size_def distinct_map)
qed

lemma char_to_int_nth:
  assumes "i < vocab_size t"
  shows "char_to_int t (used_chars t ! i) = Some (int i)"
proof -
  have "map_of (zip (used_chars t) (map int [0..<vocab_size t])) (used_chars t ! i)
        = Some (map int [0..<vocab_size t] ! i)"
    using assms by (intro map_of_zip_nth) (simp_all add: vocab_size_def used_chars_distinct)
  then show ?thesis using assms by (simp add: char_to_int_eq)
qed

lemma int_to_char_nth:
  assumes "i < vocab_size t"
  shows "int_to_char t (int i) = Some (used_chars t ! i)"
proof -
  have "map_of (zip (map int [0..<vocab_size t]) (used_chars t)) (map int [0..<vocab_size t] ! i)
        = Some (used_chars t ! i)"
    using assms by (intro map_of_zip_nth) (simp_all add: vocab_size_def distinct_map)
  then show ?thesis using assms by (simp add: int_to_char_eq)
qed

lemma char_to_int_dom: "dom (char_to_int t) = set t"
  by (simp add: char_to_int_eq vocab_size_def used_chars_set)

lemma int_to_char_dom: "dom (int_to_char t) = int ` {0..<vocab_size t}"
  by (simp add: int_to_char_eq vocab_size_def)

lemma char_to_int_member:
  assumes "c \<in> set t"
  obtains i where "i < vocab_size t" "used_chars t ! i = c" "char_to_int t c = Some (int i)"
proof -
  from assms have "c \<in> set (used_chars t)" by (simp add: used_chars_set)
  then obtain i where i: "i < length (used_chars t)" "used_chars t ! i = c"
    by (auto simp: in_set_conv_nth)
  then have "char_to_int t c = Some (int i)"
    using char_to_int_nth[of i t] by (simp add: vocab_size_def)
  with i show ?thesis using that by (simp add: vocab_size_def)
qed

lemma lookup_all_eq:
  "lookup_all d ks =
     (if \<forall>k\<in>set ks. d k \<noteq> None then Inr (map (\<lambda>k. the (d k)) ks) else Inl KeyError)"
  by (induction ks) (auto split: option.splits)

lemma char_to_int_None: "char_to_int t c = None \<longleftrightarrow> c \<notin> set t"
  using char_to_int_dom[of t] by (simp only: domIff set_eq_iff) blast

lemma encode_cases:
  "encode t s = (if set s \<subseteq> set t then Inr (map (\<lambda>c. the (char_to_int t c)) s) else Inl KeyError)"
  by (auto simp: encode_def lookup_all_eq char_to_int_None)

lemma decode_encode:
  assumes "set s \<subseteq> set t"
  shows "decode t (map (\<lambda>c. the (char_to_int t c)) s) = Inr s"
proof -
  have a: "int_to_char t (the (char_to_int t c)) = Some c" if c: "c \<in> set s" for c
  proof -
    from c assms have "c \<in> set t" by blast
    then obtain i where "i < vocab_size t" "used_chars t ! i = c" "char_to_int t c = Some (int i)"
      by (rule char_to_int_member)
    then show ?thesis using int_to_char_nth[of i t] by simp
  qed
  then have "map (\<lambda>k. the (int_to_char t k)) (map (\<lambda>c. the (char_to_int t c)) s) = s"
    by (induction s) simp_all
  with a show ?thesis by (simp add: decode_def lookup_all_eq)
qed

lemma char_to_int_bij:
  "bij_betw (\<lambda>c. the (char_to_int t c)) (set t) {0..<int (vocab_size t)}"
proof (rule bij_betwI')
  fix x y assume xy: "x \<in> set t" "y \<in> set t"
  obtain i where i: "i < vocab_size t" "used_chars t ! i = x" "char_to_int t x = Some (int i)"
    using xy(1) by (rule char_to_int_member)
  obtain j where j: "j < vocab_size t" "used_chars t ! j = y" "char_to_int t y = Some (int j)"
    using xy(2) by (rule char_to_int_member)
  show "(the (char_to_int t x) = the (char_to_int t y)) = (x = y)"
  proof
    assume "the (char_to_int t x) = the (char_to_int t y)"
    then have "i = j" by (simp add: i(3) j(3))
    then show "x = y" using i(2) j(2) by simp
  next
    assume "x = y"
    then show "the (char_to_int t x) = the (char_to_int t y)" by simp
  qed
next
  fix x assume "x \<in> set t"
  then obtain i where i: "i < vocab_size t" "char_to_int t x = Some (int i)"
    by (rule char_to_int_member)
  then show "the (char_to_int t x) \<in> {0..<int (vocab_size t)}" by simp
next
  fix y assume "y \<in> {0..<int (vocab_size t)}"
  then have "y = int (nat y)" "nat y < vocab_size t" by (simp_all add: nat_less_iff)
  then obtain i where i: "y = int i" "i < vocab_size t" by blast
  then have "used_chars t ! i \<in> set t"
    using used_chars_set[of t] nth_mem[of i "used_chars t"] by (simp add: vocab_size_def)
  moreover have "y = the (char_to_int t (used_chars t ! i))"
    by (simp add: i(1) char_to_int_nth[OF i(2)])
  ultimately show "\<exists>x\<in>set t. y = the (char_to_int t x)" by blast
qed

text \<open>
  Claim C4. For every string \<open>s\<close> composed solely of characters present in the training
  corpus, \<open>decode(encode(s)) == s\<close>: \<open>encode\<close> returns a list of ids and \<open>decode\<close> returns
  \<open>s\<close> on it. The vocabulary mapping \<open>char_to_int\<close> is a bijection between the distinct
  characters of the training corpus and the integers \<open>[0, V)\<close>, where \<open>V = vocab_size\<close> is
  the number of distinct characters; \<open>int_to_char\<close> is its inverse.
\<close>

theorem C4_vocabulary_roundtrip_bijection:
  assumes "set s \<subseteq> set train_df"
  shows "(\<exists>ids. encode train_df s = Inr ids \<and> decode train_df ids = Inr s)
       \<and> bij_betw (\<lambda>c. the (char_to_int train_df c)) (set train_df) {0..<int (vocab_size train_df)}
       \<and> vocab_size train_df = card (set train_df)
       \<and> dom (char_to_int train_df) = set train_df
       \<and> dom (int_to_char train_df) = {0..<int (vocab_size train_df)}
       \<and> (\<forall>c\<in>set train_df. int_to_char train_df (the (char_to_int train_df c)) = Some c)"
proof -
  have enc: "encode train_df s = Inr (map (\<lambda>c. the (char_to_int train_df c)) s)"
    using assms by (simp add: encode_cases)
  have rt: "\<exists>ids. encode train_df s = Inr ids \<and> decode train_df ids = Inr s"
    using enc decode_encode[OF assms] by simp
  have inv: "int_to_char train_df (the (char_to_int train_df c)) = Some c"
    if c: "c \<in> set train_df" for c
  proof -
    obtain i where "i < vocab_size train_df" "used_chars train_df ! i = c"
        "char_to_int train_df c = Some (int i)"
      using c by (rule char_to_int_member)
    then show ?thesis using int_to_char_nth[of i train_df] by simp
  qed
  have d: "dom (int_to_char train_df) = {0..<int (vocab_size train_df)}"
    by (simp add: int_to_char_dom image_int_atLeastLessThan)
  show ?thesis
    using rt char_to_int_bij[of train_df] vocab_size_card[of train_df] char_to_int_dom[of train_df] d inv
    by blast
qed

theorem C4_vocabulary_roundtrip_witness:
  "set ''low'' \<subseteq> set ''hello world''
   \<and> (\<exists>ids. encode ''hello world'' ''low'' = Inr ids \<and> decode ''hello world'' ids = Inr ''low'')
   \<and> vocab_size ''hello world'' = card (set ''hello world'')"
proof -
  have h: "set ''low'' \<subseteq> set ''hello world''" by simp
  show ?thesis using h C4_vocabulary_roundtrip_bijection[OF h] by blast
qed

text \<open>
  Claim C9, as written: \<open>encode(s)\<close> fails with \<open>UnknownCharacter\<close> when \<open>s\<close> contains a
  character that was never observed in the training corpus. The source has no such
  error: the lookup \<open>char_to_int[c]\<close> is unguarded and raises Python's \<open>KeyError\<close>. With the
  training corpus \<open>ab\<close>, encoding \<open>abc\<close> raises \<open>KeyError\<close>, not \<open>UnknownCharacter\<close>.
\<close>

theorem C9_encode_unknown_is_KeyError_counterexample:
  "encode ''ab'' ''abc'' = Inl KeyError \<and> encode ''ab'' ''abc'' \<noteq> Inl UnknownCharacter"
  by (simp add: encode_def char_to_int_def dict_of_def py_enumerate_def used_chars_def)

text \<open>
  Claim C9, amended: \<open>encode(s)\<close> maps each character of \<open>s\<close> to its integer id, and fails,
  with the \<open>KeyError\<close> of the unguarded dictionary lookup, exactly when \<open>s\<close> contains a
  character that was never observed in the training corpus; on such a failure the result
  is the exception alone, with no partial list of ids.
\<close>

theorem C9_encode_total_characterisation:
  "encode train_df s =
     (if set s \<subseteq> set train_df
      then Inr (map (\<lambda>c. the (char_to_int train_df c)) s)
      else Inl KeyError)"
proof (cases "set s \<subseteq> set train_df")
  case True
  then have "\<forall>c\<in>set s. char_to_int train_df c \<noteq> None"
    by (auto simp: char_to_int_None)
  then show ?thesis using True by (simp add: encode_def lookup_all_eq)
next
  case False
  then obtain c where "c \<in> set s" "char_to_int train_df c = None"
    by (auto simp: char_to_int_None)
  then have "\<not> (\<forall>c\<in>set s. char_to_int train_df c \<noteq> None)" by blast
  then show ?thesis using False by (simp add: encode_def lookup_all_eq)
qed

theorem C9_encode_total_characterisation_witness:
  "encode ''ab'' ''ba'' = Inr [1, 0] \<and> encode ''ab'' ''bxa'' = Inl KeyError"
proof -
  have a: "char_to_int ''ab'' CHR ''a'' = Some 0" "char_to_int ''ab'' CHR ''b'' = Some 1"
    by (simp_all add: char_to_int_def dict_of_def py_enumerate_def used_chars_def)
  show ?thesis
    using C9_encode_total_characterisation[of "''ab''" "''ba''"]
          C9_encode_total_characterisation[of "''ab''" "''bxa''"] a
    by simp
qed

section \<open>Properties of the batch sampler\<close>

lemma stack_ok:
  assumes "rows \<noteq> []" "\<forall>r\<in>set rows. length r = n"
  shows "stack rows = Inr rows"
proof -
  have "hd rows \<in> set rows" using assms(1) by simp
  then have "length (hd rows) = n" using assms(2) by blast
  then show ?thesis using assms by (simp add: stack_def)
qed

lemma slice_length: "j \<le> length xs \<Longrightarrow> length (slice xs i j) = j - i"
  by (simp add: slice_def)

lemma slice_nth: "j \<le> length xs \<Longrightarrow> t < j - i \<Longrightarrow> slice xs i j ! t = xs ! (i + t)"
  by (simp add: slice_def)

text \<open>
  On a sequence longer than the block size and for a batch size of at least one, the
  sampler returns the windows at the offsets that \<open>randint\<close> drew.
\<close>

lemma get_batch_value:
  assumes split: "select_split c split = Inr data"
      and long: "block_size < length data"
      and batch: "0 < batch_size"
  shows "get_batch c block_size batch_size raw split =
           Inr (map (\<lambda>k. slice data (raw k mod (length data - block_size))
                               (raw k mod (length data - block_size) + block_size))
                    [0..<batch_size],
                map (\<lambda>k. slice data (raw k mod (length data - block_size) + 1)
                               (raw k mod (length data - block_size) + block_size + 1))
                    [0..<batch_size])"
proof -
  define high where "high = length data - block_size"
  define ix where "ix = map (\<lambda>k. raw k mod high) [0..<batch_size]"
  define x where "x = map (\<lambda>i. slice data i (i + block_size)) ix"
  define y where "y = map (\<lambda>i. slice data (i + 1) (i + block_size + 1)) ix"
  have high: "0 < high" "int (length data) - int block_size = int high"
    using long by (simp_all add: high_def)
  have ix_range: "i < high" if "i \<in> set ix" for i
    using that high(1) by (auto simp: ix_def)
  have r: "randint raw (int (length data) - int block_size) batch_size = Inr ix"
    using high by (simp add: randint_def ix_def)
  have ne: "ix \<noteq> []" using batch by (simp add: ix_def)
  have lx: "\<forall>r\<in>set x. length r = block_size"
  proof
    fix r assume "r \<in> set x"
    then obtain i where i: "i \<in> set ix" "r = slice data i (i + block_size)"
      by (auto simp: x_def)
    from ix_range[OF i(1)] have "i + block_size \<le> length data" by (simp add: high_def)
    then show "length r = block_size" by (simp add: i(2) slice_length)
  qed
  have ly: "\<forall>r\<in>set y. length r = block_size"
  proof
    fix r assume "r \<in> set y"
    then obtain i where i: "i \<in> set ix" "r = slice data (i + 1) (i + block_size + 1)"
      by (auto simp: y_def)
    from ix_range[OF i(1)] have "i + block_size + 1 \<le> length data" by (simp add: high_def)
    then show "length r = block_size" by (simp add: i(2) slice_length)
  qed
  have "x \<noteq> []" "y \<noteq> []" using ne by (simp_all add: x_def y_def)
  then have sx: "stack x = Inr x" and sy: "stack y = Inr y"
    using lx ly by (simp_all add: stack_ok[where n = block_size])
  have "get_batch c block_size batch_size raw split = Inr (x, y)"
    using sx sy by (simp add: get_batch_def split r x_def y_def)
  then show ?thesis by (simp add: x_def y_def ix_def high_def comp_def)
qed

text \<open>
  Claim C5. For every token sequence with \<open>len(tokenSequence) > blockSize\<close> (and a batch
  size of at least one), the batch sampler returns \<open>batchSize\<close> input rows and as many
  target rows. The start offset of row \<open>b\<close> is its own draw, reduced to
  \<open>[0, len(tokenSequence) - blockSize)\<close>; the input row is the tokens \<open>[i, i+blockSize)\<close>
  and the target row the tokens \<open>[i+1, i+blockSize+1)\<close>, both of full length, so the target
  row is the input row shifted by exactly one position in the source sequence. Every list
  of \<open>batchSize\<close> offsets of that range, repeated offsets included, is the outcome of some
  draws. (That the draws are independent and uniform is the contract of \<open>torch.randint\<close>.)
\<close>

theorem C5_get_batch_windows:
  assumes split: "select_split c split = Inr data"
      and long: "block_size < length data"
      and batch: "0 < batch_size"
  shows "(\<exists>x y. get_batch c block_size batch_size raw split = Inr (x, y)
            \<and> length x = batch_size \<and> length y = batch_size
            \<and> (\<forall>b<batch_size.
                  \<exists>i. i = raw b mod (length data - block_size)
                     \<and> i < length data - block_size
                     \<and> x ! b = slice data i (i + block_size)
                     \<and> y ! b = slice data (i + 1) (i + block_size + 1)
                     \<and> length (x ! b) = block_size \<and> length (y ! b) = block_size
                     \<and> (\<forall>t<block_size. x ! b ! t = data ! (i + t) \<and> y ! b ! t = data ! (i + t + 1))
                     \<and> (\<forall>t. t + 1 < block_size \<longrightarrow> y ! b ! t = x ! b ! (t + 1))))
       \<and> (\<forall>ix. length ix = batch_size \<and> (\<forall>i\<in>set ix. i < length data - block_size) \<longrightarrow>
             (\<exists>raw'. get_batch c block_size batch_size raw' split =
                        Inr (map (\<lambda>i. slice data i (i + block_size)) ix,
                             map (\<lambda>i. slice data (i + 1) (i + block_size + 1)) ix)))"
proof -
  define high where "high = length data - block_size"
  define x where "x = map (\<lambda>k. slice data (raw k mod high) (raw k mod high + block_size)) [0..<batch_size]"
  define y where "y = map (\<lambda>k. slice data (raw k mod high + 1) (raw k mod high + block_size + 1))
                          [0..<batch_size]"
  have high: "0 < high" using long by (simp add: high_def)
  have g: "get_batch c block_size batch_size raw split = Inr (x, y)"
    unfolding x_def y_def high_def by (rule get_batch_value[OF assms])
  have rows: "\<exists>i. i = raw b mod (length data - block_size)
                     \<and> i < length data - block_size
                     \<and> x ! b = slice data i (i + block_size)
                     \<and> y ! b = slice data (i + 1) (i + block_size + 1)
                     \<and> length (x ! b) = block_size \<and> length (y ! b) = block_size
                     \<and> (\<forall>t<block_size. x ! b ! t = data ! (i + t) \<and> y ! b ! t = data ! (i + t + 1))
                     \<and> (\<forall>t. t + 1 < block_size \<longrightarrow> y ! b ! t = x ! b ! (t + 1))"
    if b: "b < batch_size" for b
  proof -
    define i where "i = raw b mod high"
    have i: "i < high" using high by (simp add: i_def)
    then have bound: "i + block_size + 1 \<le> length data" by (simp add: high_def)
    have xb: "x ! b = slice data i (i + block_size)"
      using b by (simp add: x_def i_def)
    have yb: "y ! b = slice data (i + 1) (i + block_size + 1)"
      using b by (simp add: y_def i_def)
    have el: "x ! b ! t = data ! (i + t) \<and> y ! b ! t = data ! (i + t + 1)" if "t < block_size" for t
      using that bound by (simp add: xb yb slice_nth)
    have shift: "y ! b ! t = x ! b ! (t + 1)" if "t + 1 < block_size" for t
    proof -
      have "y ! b ! t = data ! (i + t + 1)" using el[of t] that by simp
      moreover have "x ! b ! (t + 1) = data ! (i + (t + 1))" using el[of "t + 1"] that by simp
      ultimately show ?thesis by simp
    qed
    have "length (x ! b) = block_size" "length (y ! b) = block_size"
      using bound by (simp_all add: xb yb slice_length)
    then show ?thesis using i xb yb el shift by (auto simp: i_def high_def)
  qed
  have first: "\<exists>x y. get_batch c block_size batch_size raw split = Inr (x, y)
            \<and> length x = batch_size \<and> length y = batch_size
            \<and> (\<forall>b<batch_size.
                  \<exists>i. i = raw b mod (length data - block_size)
                     \<and> i < length data - block_size
                     \<and> x ! b = slice data i (i + block_size)
                     \<and> y ! b = slice data (i + 1) (i + block_size + 1)
                     \<and> length (x ! b) = block_size \<and> length (y ! b) = block_size
                     \<and> (\<forall>t<block_size. x ! b ! t = data ! (i + t) \<and> y ! b ! t = data ! (i + t + 1))
                     \<and> (\<forall>t. t + 1 < block_size \<longrightarrow> y ! b ! t = x ! b ! (t + 1)))"
  proof -
    have "length x = batch_size" "length y = batch_size" by (simp_all add: x_def y_def)
    with g rows show ?thesis by blast
  qed
  have second: "\<exists>raw'. get_batch c block_size batch_size raw' split =
                        Inr (map (\<lambda>i. slice data i (i + block_size)) ix,
                             map (\<lambda>i. slice data (i + 1) (i + block_size + 1)) ix)"
    if len: "length ix = batch_size" and rng: "\<forall>i\<in>set ix. i < length data - block_size" for ix
  proof -
    have m: "ix ! k mod (length data - block_size) = ix ! k" if "k < batch_size" for k
      using that len rng by simp
    have a: "map (\<lambda>k. slice data (ix ! k mod (length data - block_size))
                              (ix ! k mod (length data - block_size) + block_size)) [0..<batch_size]
              = map (\<lambda>i. slice data i (i + block_size)) ix"
      using len m by (auto intro!: nth_equalityI)
    have b: "map (\<lambda>k. slice data (ix ! k mod (length data - block_size) + 1)
                              (ix ! k mod (length data - block_size) + block_size + 1)) [0..<batch_size]
              = map (\<lambda>i. slice data (i + 1) (i + block_size + 1)) ix"
      using len m by (auto intro!: nth_equalityI)
    have "get_batch c block_size batch_size (\<lambda>k. ix ! k) split =
                        Inr (map (\<lambda>i. slice data i (i + block_size)) ix,
                             map (\<lambda>i. slice data (i + 1) (i + block_size + 1)) ix)"
      unfolding get_batch_value[OF assms, of "\<lambda>k. ix ! k"] a b ..
    then show ?thesis by blast
  qed
  from first second show ?thesis by blast
qed

theorem C5_get_batch_windows_witness:
  "select_split corpus_aabb ''train'' = Inr [0, 0, 1, 1]
   \<and> (2::nat) < length [0::int, 0, 1, 1]
   \<and> (\<exists>x y. get_batch corpus_aabb 2 1 (\<lambda>k. 1) ''train'' = Inr (x, y)
             \<and> length x = 1 \<and> length y = 1)
   \<and> get_batch corpus_aabb 2 1 (\<lambda>k. 1) ''train'' = Inr ([[0, 1]], [[1, 1]])"
proof -
  have s: "select_split corpus_aabb ''train'' = Inr [0, 0, 1, 1]"
    by (simp add: select_split_def corpus_aabb_def)
  have l: "(2::nat) < length [0::int, 0, 1, 1]" by simp
  have b: "(0::nat) < 1" by simp
  from C5_get_batch_windows[OF s l b, of "\<lambda>k. 1"]
  have e: "\<exists>x y. get_batch corpus_aabb 2 1 (\<lambda>k. 1) ''train'' = Inr (x, y)
             \<and> length x = 1 \<and> length y = 1"
    by blast
  have v: "get_batch corpus_aabb 2 1 (\<lambda>k. 1) ''train'' = Inr ([[0, 1]], [[1, 1]])"
    by (simp add: get_batch_def s randint_def stack_def slice_def)
  from s l e v show ?thesis by blast
qed

section \<open>Shapes through the layers\<close>

text \<open>
  Each layer, given an input of the shape it was built for, returns without an exception a
  tensor of the expected shape.
\<close>

lemma sum_list_nonneg_real:
  "(\<And>v. v \<in> set xs \<Longrightarrow> 0 \<le> v) \<Longrightarrow> 0 \<le> sum_list (xs :: real list)"
  by (induction xs) simp_all

lemma map_err_Inr_map:
  "(\<And>x. x \<in> set xs \<Longrightarrow> f x = Inr (g x)) \<Longrightarrow> map_err f xs = Inr (map g xs)"
  by (induction xs) simp_all

lemma map_err_Inr_iff:
  "map_err f xs = Inr ys \<longleftrightarrow> length ys = length xs \<and> (\<forall>i<length xs. f (xs ! i) = Inr (ys ! i))"
proof (induction xs arbitrary: ys)
  case Nil
  then show ?case by auto
next
  case (Cons x xs)
  show ?case
  proof (cases ys)
    case Nil
    then show ?thesis by (auto split: sum.splits)
  next
    case (Cons y ys')
    then show ?thesis
      using Cons.IH[of ys'] by (auto split: sum.splits simp: nth_Cons less_Suc_eq_0_disj)
  qed
qed

lemma map_err_Inl:
  "map_err f xs = Inl e \<Longrightarrow> \<exists>x\<in>set xs. f x = Inl e"
  by (induction xs) (auto split: sum.splits)

lemma map_err_all_Inl:
  "xs \<noteq> [] \<Longrightarrow> (\<And>x. x \<in> set xs \<Longrightarrow> f x = Inl e) \<Longrightarrow> map_err f xs = Inl e"
  by (cases xs) simp_all

lemma is_mat_rows: "is_mat T C x \<Longrightarrow> r \<in> set x \<Longrightarrow> length r = C"
  by (simp add: is_mat_def list_all_iff)

lemma is_mat_length: "is_mat T C x \<Longrightarrow> length x = T"
  by (simp add: is_mat_def)

lemma is_mat_map: "is_mat T C x \<Longrightarrow> (\<And>r. r \<in> set x \<Longrightarrow> length (f r) = D) \<Longrightarrow> is_mat T D (map f x)"
  by (simp add: is_mat_def list_all_iff)

lemma is_mat_nth: "is_mat T C x \<Longrightarrow> t < T \<Longrightarrow> length (x ! t) = C"
  by (simp add: is_mat_def list_all_length)

lemma is_matI: "length x = T \<Longrightarrow> (\<And>t. t < T \<Longrightarrow> length (x ! t) = C) \<Longrightarrow> is_mat T C x"
  by (simp add: is_mat_def list_all_length)

lemma is_mat_ncols: "is_mat T C x \<Longrightarrow> 0 < T \<Longrightarrow> ncols x = C"
  by (cases x) (simp_all add: is_mat_def ncols_def)

lemma length_linear_apply: "length (linear_apply L r) = lin_out L"
  by (simp add: linear_apply_def)

lemma linear_fwd_ok:
  assumes "is_mat T (lin_in L) x"
  shows "linear_fwd L x = Inr (map (linear_apply L) x)"
    and "is_mat T (lin_out L) (map (linear_apply L) x)"
proof -
  show "linear_fwd L x = Inr (map (linear_apply L) x)"
    unfolding linear_fwd_def
    by (rule map_err_Inr_map) (use assms in \<open>simp add: linear_row_def is_mat_rows\<close>)
  show "is_mat T (lin_out L) (map (linear_apply L) x)"
    using assms by (rule is_mat_map) (simp add: length_linear_apply)
qed

lemma linear_fwd_bad_width:
  assumes "is_mat T C x" "0 < T" "C \<noteq> lin_in L"
  shows "linear_fwd L x = Inl RuntimeError"
  unfolding linear_fwd_def
proof (rule map_err_all_Inl)
  show "x \<noteq> []" using assms by (auto simp: is_mat_def)
  fix r assume "r \<in> set x"
  then show "linear_row L r = Inl RuntimeError"
    using assms by (simp add: linear_row_def is_mat_rows)
qed

lemma layer_norm_fwd_ok:
  assumes "is_mat T (ln_dim nrm) x"
  shows "\<exists>y. layer_norm_fwd nrm x = Inr y \<and> is_mat T (ln_dim nrm) y"
proof -
  have "layer_norm_fwd nrm x = Inr (map (layer_norm_apply nrm) x)"
    unfolding layer_norm_fwd_def
    by (rule map_err_Inr_map) (use assms in \<open>simp add: layer_norm_row_def layer_norm_apply_def is_mat_rows\<close>)
  moreover have "is_mat T (ln_dim nrm) (map (layer_norm_apply nrm) x)"
    using assms by (rule is_mat_map) (simp add: layer_norm_apply_def is_mat_rows[OF assms])
  ultimately show ?thesis by blast
qed

lemma layer_norm_fwd_bad_width:
  assumes "is_mat T C x" "0 < T" "C \<noteq> ln_dim nrm"
  shows "layer_norm_fwd nrm x = Inl RuntimeError"
  unfolding layer_norm_fwd_def
proof (rule map_err_all_Inl)
  show "x \<noteq> []" using assms by (auto simp: is_mat_def)
  fix r assume "r \<in> set x"
  then show "layer_norm_row nrm r = Inl RuntimeError"
    using assms by (simp add: layer_norm_row_def is_mat_rows)
qed

lemma dropout_shape:
  assumes "is_mat T C x"
  shows "is_mat T C (dropout p training zeroed x)"
proof (cases training)
  case False
  then show ?thesis using assms by (simp add: dropout_def)
next
  case True
  show ?thesis
  proof (rule is_matI)
    show "length (dropout p training zeroed x) = T"
      using True assms by (simp add: dropout_def is_mat_length)
    fix t assume "t < T"
    then show "length (dropout p training zeroed x ! t) = C"
      using True assms by (simp add: dropout_def is_mat_length is_mat_nth)
  qed
qed

lemma dropout_zero:
  assumes "t < length x" "j < length (x ! t)" "x ! t ! j = 0"
  shows "dropout p training zeroed x ! t ! j = 0"
  using assms by (simp add: dropout_def)


subsection \<open>The attention head\<close>

lemma tril_mask_length: "T \<le> bs \<Longrightarrow> length (tril_mask (tril_ones bs) T) = T"
  by (simp add: tril_mask_def tril_ones_def)

lemma tril_mask_nth:
  assumes "T \<le> bs" "i < T" "j < T"
  shows "tril_mask (tril_ones bs) T ! i ! j \<longleftrightarrow> i < j"
  using assms by (simp add: tril_mask_def tril_ones_def)

lemma inv_sqrt_ok: "0 < C \<Longrightarrow> inv_sqrt C = Inr (real C powr (- (1 / 2)))"
  by (simp add: inv_sqrt_def)

lemma matmul_transposed_ok:
  assumes "is_mat T D q" "is_mat T D k"
  shows "matmul_transposed q k = Inr (map (\<lambda>qt. map (\<lambda>kt. dotv qt kt) k) q)"
proof (cases "T = 0")
  case True
  then show ?thesis using assms by (simp add: matmul_transposed_def is_mat_def)
next
  case False
  then have "ncols q = D" "ncols k = D" using assms by (simp_all add: is_mat_ncols)
  then show ?thesis by (simp add: matmul_transposed_def)
qed

lemma Head_scores_eq:
  assumes wf: "wf_head C hs bs h" and x: "is_mat T C x" and C: "0 < C"
  shows "Head_scores h x =
           Inr (map (\<lambda>qt. map (\<lambda>kt. dotv qt kt * real C powr (- (1 / 2)))
                              (map (linear_apply (head_key h)) x))
                    (map (linear_apply (head_query h)) x))"
proof -
  have xk: "is_mat T (lin_in (head_key h)) x" and xq: "is_mat T (lin_in (head_query h)) x"
    using wf x by (simp_all add: wf_head_def)
  have k: "linear_fwd (head_key h) x = Inr (map (linear_apply (head_key h)) x)"
    and ks: "is_mat T hs (map (linear_apply (head_key h)) x)"
    using linear_fwd_ok[OF xk] wf by (simp_all add: wf_head_def)
  have q: "linear_fwd (head_query h) x = Inr (map (linear_apply (head_query h)) x)"
    and qs: "is_mat T hs (map (linear_apply (head_query h)) x)"
    using linear_fwd_ok[OF xq] wf by (simp_all add: wf_head_def)
  have c: "last_dim h x = C"
  proof (cases "x = []")
    case True
    then show ?thesis using wf by (simp add: last_dim_def wf_head_def)
  next
    case False
    then have "0 < T" using x by (auto simp: is_mat_def)
    then show ?thesis using False x by (simp add: last_dim_def is_mat_ncols)
  qed
  show ?thesis
    by (simp add: Head_scores_def k q matmul_transposed_ok[OF qs ks] c inv_sqrt_ok[OF C] comp_def)
qed

lemma Head_scores_shape:
  assumes wf: "wf_head C hs bs h" and x: "is_mat T C x" and C: "0 < C"
  shows "\<exists>s. Head_scores h x = Inr s \<and> is_mat T T s"
  using Head_scores_eq[OF assms] x
  by (auto simp: is_mat_def list_all_iff)

lemma masked_fill_same:
  assumes "length msk = length w"
  shows "masked_fill w msk =
           Inr (map (\<lambda>i. map (\<lambda>j. if msk ! i ! j then NegInf else Finite (w ! i ! j))
                              [0..<length (w ! i)])
                    [0..<length w])"
  using assms by (simp add: masked_fill_def)

lemma softmax_scores_length: "length (softmax_scores row) = length row"
  by (simp add: softmax_scores_def)

lemma softmax_scores_NegInf:
  "j < length row \<Longrightarrow> row ! j = NegInf \<Longrightarrow> softmax_scores row ! j = 0"
  by (simp add: softmax_scores_def exp_score_def)

lemma Head_masked:
  assumes wf: "wf_head C hs bs h" and x: "is_mat T C x" and C: "0 < C" and T: "T \<le> bs"
  shows "\<exists>scores masked.
           Head_scores h x = Inr scores \<and> is_mat T T scores
         \<and> masked_fill scores (tril_mask (head_tril h) T) = Inr masked \<and> is_mat T T masked
         \<and> (\<forall>t<T. \<forall>t'<T. masked ! t ! t' = (if t < t' then NegInf else Finite (scores ! t ! t')))
         \<and> Head_weights h training zeroed x
               = Inr (dropout (head_dropout h) training zeroed (map softmax_scores masked))"
proof -
  obtain scores where s: "Head_scores h x = Inr scores" and ss: "is_mat T T scores"
    using Head_scores_shape[OF wf x C] by blast
  have tr: "head_tril h = tril_ones bs" using wf by (simp add: wf_head_def)
  define msk where "msk = tril_mask (tril_ones bs) T"
  define masked where "masked = map (\<lambda>i. map (\<lambda>j. if msk ! i ! j then NegInf else Finite (scores ! i ! j))
                              [0..<length (scores ! i)]) [0..<length scores]"
  have lm: "length msk = length scores"
    using T ss by (simp add: msk_def tril_mask_length is_mat_length)
  have mf: "masked_fill scores msk = Inr masked"
    unfolding masked_def by (rule masked_fill_same[OF lm])
  have lT: "length scores = T" using ss by (simp add: is_mat_length)
  have m_nth: "masked ! t ! t' = (if t < t' then NegInf else Finite (scores ! t ! t'))"
    if "t < T" "t' < T" for t t'
    using that lT is_mat_nth[OF ss that(1)] tril_mask_nth[OF T that]
    by (simp add: masked_def msk_def)
  have m_shape: "is_mat T T masked"
    using lT ss by (intro is_matI) (simp_all add: masked_def is_mat_nth)
  have w: "Head_weights h training zeroed x
             = Inr (dropout (head_dropout h) training zeroed (map softmax_scores masked))"
    using is_mat_length[OF x]
    by (simp add: Head_weights_def s tr mf[unfolded msk_def])
  show ?thesis
    using s ss mf[unfolded msk_def] m_shape m_nth w tr by auto
qed

lemma softmax_rows_shape:
  assumes "is_mat T D masked"
  shows "is_mat T D (map softmax_scores masked)"
  using assms by (rule is_mat_map) (simp add: softmax_scores_length is_mat_rows[OF assms])

lemma Head_weights_ok:
  assumes wf: "wf_head C hs bs h" and x: "is_mat T C x" and C: "0 < C" and T: "T \<le> bs"
  shows "\<exists>wei. Head_weights h training zeroed x = Inr wei \<and> is_mat T T wei"
proof -
  obtain masked where m: "is_mat T T masked"
    and w: "Head_weights h training zeroed x
              = Inr (dropout (head_dropout h) training zeroed (map softmax_scores masked))"
    using Head_masked[OF assms, of training zeroed] by blast
  have "is_mat T T (dropout (head_dropout h) training zeroed (map softmax_scores masked))"
    using softmax_rows_shape[OF m] by (rule dropout_shape)
  with w show ?thesis by blast
qed

lemma sum_list_divide_real:
  "sum_list (map (\<lambda>v. f v / c) xs) = sum_list (map f xs) / (c :: real)"
  by (induction xs) (simp_all add: add_divide_distrib)

lemma exp_score_nonneg: "0 \<le> exp_score s"
  by (cases s) (simp_all add: exp_score_def)

lemma sum_exp_score_pos:
  assumes "j < length row" "row ! j = Finite v"
  shows "0 < sum_list (map exp_score row)"
  using assms
proof (induction row arbitrary: j)
  case Nil
  then show ?case by simp
next
  case (Cons s row)
  have nn: "0 \<le> sum_list (map exp_score row)"
    by (rule sum_list_nonneg_real) (auto simp: exp_score_nonneg)
  show ?case
  proof (cases j)
    case 0
    then have "exp_score s = exp v" using Cons.prems by (simp add: exp_score_def)
    then have "0 < exp_score s" by simp
    with nn show ?thesis by simp
  next
    case (Suc j')
    then have "0 < sum_list (map exp_score row)" using Cons by simp
    moreover have "0 \<le> exp_score s" by (rule exp_score_nonneg)
    ultimately show ?thesis by simp
  qed
qed

lemma softmax_scores_sum:
  assumes "j < length row" "row ! j = Finite v"
  shows "sum_list (softmax_scores row) = 1"
proof -
  have "0 < sum_list (map exp_score row)" using assms by (rule sum_exp_score_pos)
  then show ?thesis by (simp add: softmax_scores_def sum_list_divide_real)
qed

lemma matmul_ok:
  assumes "is_mat T T a" "is_mat T D v"
  shows "\<exists>out. matmul a v = Inr out \<and> is_mat T D out"
proof (cases "T = 0")
  case True
  then show ?thesis using assms by (simp add: matmul_def is_mat_def ncols_def)
next
  case False
  then have "ncols a = T" "ncols v = D" "length v = T"
    using assms by (simp_all add: is_mat_ncols is_mat_length)
  then have "matmul a v = Inr (map (\<lambda>arow. map (\<lambda>c. (\<Sum>j<length v. arow ! j * v ! j ! c)) [0..<D]) a)"
    by (simp add: matmul_def)
  moreover have "is_mat T D (map (\<lambda>arow. map (\<lambda>c. (\<Sum>j<length v. arow ! j * v ! j ! c)) [0..<D]) a)"
    using assms(1) by (rule is_mat_map) simp
  ultimately show ?thesis by blast
qed

lemma Head_forward_ok:
  assumes wf: "wf_head C hs bs h" and x: "is_mat T C x" and C: "0 < C" and T: "T \<le> bs"
  shows "\<exists>out. Head_forward h training zeroed x = Inr out \<and> is_mat T hs out"
proof -
  obtain wei where w: "Head_weights h training zeroed x = Inr wei" and ws: "is_mat T T wei"
    using Head_weights_ok[OF assms] by blast
  have xv: "is_mat T (lin_in (head_value h)) x" using wf x by (simp add: wf_head_def)
  have v: "linear_fwd (head_value h) x = Inr (map (linear_apply (head_value h)) x)"
    and vs: "is_mat T hs (map (linear_apply (head_value h)) x)"
    using linear_fwd_ok[OF xv] wf by (simp_all add: wf_head_def)
  from matmul_ok[OF ws vs] show ?thesis by (simp add: Head_forward_def w v)
qed

subsection \<open>Multi-head attention, feed-forward and block\<close>

lemma length_concat_const:
  "(\<And>x. x \<in> set xs \<Longrightarrow> length (f x) = n) \<Longrightarrow> length (concat (map f xs)) = length xs * n"
  by (induction xs) simp_all

lemma cat_last_ok:
  assumes "outs \<noteq> []" "\<And>out. out \<in> set outs \<Longrightarrow> is_mat T D out"
  shows "\<exists>y. cat_last outs = Inr y \<and> is_mat T (length outs * D) y"
proof -
  have len: "length out = T" if "out \<in> set outs" for out
    using assms(2)[OF that] by (rule is_mat_length)
  have "hd outs \<in> set outs" using assms(1) by simp
  then have hd: "length (hd outs) = T" by (rule len)
  have c: "cat_last outs = Inr (map (\<lambda>t. concat (map (\<lambda>out. out ! t) outs)) [0..<T])"
    using assms(1) len hd by (simp add: cat_last_def)
  have "is_mat T (length outs * D) (map (\<lambda>t. concat (map (\<lambda>out. out ! t) outs)) [0..<T])"
  proof (rule is_matI)
    show "length (map (\<lambda>t. concat (map (\<lambda>out. out ! t) outs)) [0..<T]) = T" by simp
    fix t assume t: "t < T"
    have "length (out ! t) = D" if "out \<in> set outs" for out
      using is_mat_nth[OF assms(2)[OF that] t] .
    then have "length (concat (map (\<lambda>out. out ! t) outs)) = length outs * D"
      by (rule length_concat_const)
    then show "length (map (\<lambda>t. concat (map (\<lambda>out. out ! t) outs)) [0..<T] ! t) = length outs * D"
      using t by simp
  qed
  with c show ?thesis by blast
qed

lemma heads_forward_ok:
  assumes hs: "list_all (wf_head C hs bs) heads" and x: "is_mat T C x" and C: "0 < C" and T: "T \<le> bs"
  shows "\<exists>outs. map_err (\<lambda>i. Head_forward (heads ! i) training (sub (sub zeroed 0) i) x)
                        [0..<length heads] = Inr outs
              \<and> length outs = length heads \<and> (\<forall>out\<in>set outs. is_mat T hs out)"
proof -
  define g where "g = (\<lambda>i. projr (Head_forward (heads ! i) training (sub (sub zeroed 0) i) x))"
  have one: "Head_forward (heads ! i) training (sub (sub zeroed 0) i) x = Inr (g i) \<and> is_mat T hs (g i)"
    if "i < length heads" for i
  proof -
    have "wf_head C hs bs (heads ! i)" using hs that by (simp add: list_all_length)
    from Head_forward_ok[OF this x C T, of training "sub (sub zeroed 0) i"]
    show ?thesis by (auto simp: g_def)
  qed
  have "map_err (\<lambda>i. Head_forward (heads ! i) training (sub (sub zeroed 0) i) x) [0..<length heads]
          = Inr (map g [0..<length heads])"
    by (rule map_err_Inr_map) (use one in simp)
  moreover have "\<forall>out\<in>set (map g [0..<length heads]). is_mat T hs out"
    using one by auto
  ultimately show ?thesis by auto
qed

lemma MultiHeadAttention_forward_ok:
  assumes wf: "wf_mha C bs a" and x: "is_mat T C x" and C: "0 < C" and T: "T \<le> bs"
  shows "\<exists>y. MultiHeadAttention_forward a training zeroed x = Inr y \<and> is_mat T C y"
proof -
  define hs where "hs = C div length (mha_heads a)"
  have hw: "list_all (wf_head C hs bs) (mha_heads a)" and ne: "mha_heads a \<noteq> []"
    and tot: "length (mha_heads a) * hs = C"
    and pr: "lin_in (mha_proj a) = C" "lin_out (mha_proj a) = C"
    using wf by (simp_all add: wf_mha_def hs_def)
  obtain outs where o: "map_err (\<lambda>i. Head_forward (mha_heads a ! i) training (sub (sub zeroed 0) i) x)
                        [0..<length (mha_heads a)] = Inr outs"
    and ol: "length outs = length (mha_heads a)" and os: "\<forall>out\<in>set outs. is_mat T hs out"
    using heads_forward_ok[OF hw x C T] by blast
  have "outs \<noteq> []" using ol ne by auto
  then obtain y where y: "cat_last outs = Inr y" and ys: "is_mat T (length outs * hs) y"
    using cat_last_ok[of outs T hs] os by blast
  have "is_mat T (lin_in (mha_proj a)) y" using ys ol tot pr by simp
  from linear_fwd_ok[OF this]
  have p: "linear_fwd (mha_proj a) y = Inr (map (linear_apply (mha_proj a)) y)"
    and ps: "is_mat T C (map (linear_apply (mha_proj a)) y)"
    using pr by simp_all
  show ?thesis
    using dropout_shape[OF ps]
    by (simp add: MultiHeadAttention_forward_def o y p)
qed

lemma relu_shape: "is_mat T C x \<Longrightarrow> is_mat T C (relu x)"
  by (simp add: relu_def is_mat_def list_all_iff)

lemma FeedFoward_forward_ok:
  assumes wf: "wf_ff C f" and x: "is_mat T C x"
  shows "\<exists>y. FeedFoward_forward f training zeroed x = Inr y \<and> is_mat T C y"
proof -
  have "is_mat T (lin_in (ff_expand f)) x" using wf x by (simp add: wf_ff_def)
  from linear_fwd_ok[OF this]
  have e: "linear_fwd (ff_expand f) x = Inr (map (linear_apply (ff_expand f)) x)"
    and es: "is_mat T (lin_in (ff_contract f)) (map (linear_apply (ff_expand f)) x)"
    using wf by (simp_all add: wf_ff_def)
  from linear_fwd_ok[OF relu_shape[OF es]]
  have c: "linear_fwd (ff_contract f) (relu (map (linear_apply (ff_expand f)) x))
             = Inr (map (linear_apply (ff_contract f)) (relu (map (linear_apply (ff_expand f)) x)))"
    and cs: "is_mat T C (map (linear_apply (ff_contract f)) (relu (map (linear_apply (ff_expand f)) x)))"
    using wf by (simp_all add: wf_ff_def)
  show ?thesis using dropout_shape[OF cs] by (simp add: FeedFoward_forward_def e c)
qed

lemma mat_add_ok:
  assumes "is_mat T C a" "is_mat T C b"
  shows "\<exists>y. mat_add a b = Inr y \<and> is_mat T C y"
proof -
  have l: "map length a = map length b"
    using assms by (auto simp: is_mat_def list_all_length intro!: nth_equalityI)
  have "is_mat T C (map (\<lambda>(r, s). map (\<lambda>(v, w). v + w) (zip r s)) (zip a b))"
    using assms by (intro is_matI) (simp_all add: is_mat_def list_all_length)
  with l show ?thesis by (simp add: mat_add_def)
qed

lemma Block_forward_ok:
  assumes wf: "wf_block C bs b" and x: "is_mat T C x" and C: "0 < C" and T: "T \<le> bs"
  shows "\<exists>y. Block_forward b training zeroed x = Inr y \<and> is_mat T C y"
proof -
  have w: "wf_mha C bs (blk_sa b)" "wf_ff C (blk_ffwd b)"
    and l1: "ln_dim (blk_ln1 b) = C" and l2: "ln_dim (blk_ln2 b) = C"
    using wf by (simp_all add: wf_block_def)
  obtain n1 where n1: "layer_norm_fwd (blk_ln1 b) x = Inr n1" and n1s: "is_mat T C n1"
    using layer_norm_fwd_ok[of T "blk_ln1 b" x] x l1 by auto
  obtain att where att: "MultiHeadAttention_forward (blk_sa b) training (sub zeroed 0) n1 = Inr att"
    and atts: "is_mat T C att"
    using MultiHeadAttention_forward_ok[OF w(1) n1s C T] by blast
  obtain x1 where x1: "mat_add x att = Inr x1" and x1s: "is_mat T C x1"
    using mat_add_ok[OF x atts] by blast
  obtain n2 where n2: "layer_norm_fwd (blk_ln2 b) x1 = Inr n2" and n2s: "is_mat T C n2"
    using layer_norm_fwd_ok[of T "blk_ln2 b" x1] x1s l2 by auto
  obtain ff where ff: "FeedFoward_forward (blk_ffwd b) training (sub zeroed 1) n2 = Inr ff"
    and ffs: "is_mat T C ff"
    using FeedFoward_forward_ok[OF w(2) n2s] by blast
  from mat_add_ok[OF x1s ffs] show ?thesis
    by (simp add: Block_forward_def n1 att x1 n2 ff[simplified])
qed

lemma blocks_forward_ok:
  assumes "list_all (wf_block C bs) bl" "is_mat T C x" "0 < C" "T \<le> bs"
  shows "\<exists>y. blocks_forward bl training zeroed l x = Inr y \<and> is_mat T C y"
  using assms
proof (induction bl arbitrary: l x)
  case Nil
  then show ?case by simp
next
  case (Cons b bl)
  then have wb: "wf_block C bs b" and rest: "list_all (wf_block C bs) bl" by simp_all
  obtain y where y: "Block_forward b training (sub zeroed l) x = Inr y" and ys: "is_mat T C y"
    using Block_forward_ok[OF wb Cons.prems(2) Cons.prems(3) Cons.prems(4)] by blast
  from Cons.IH[OF rest ys Cons.prems(3) Cons.prems(4), of "Suc l"] show ?case by (simp add: y)
qed


subsection \<open>The forward pass\<close>

lemma embedding_row_ok:
  "0 \<le> i \<Longrightarrow> i < int (num_embeddings E) \<Longrightarrow>
     \<exists>r. embedding_row E i = Inr r \<and> length r = embedding_dim E"
  by (simp add: embedding_row_def)

lemma embedding_rows_ok:
  assumes "\<forall>i\<in>set row. 0 \<le> i \<and> i < int (num_embeddings E)"
  shows "\<exists>x. map_err (embedding_row E) row = Inr x \<and> is_mat (length row) (embedding_dim E) x"
proof -
  have "map_err (embedding_row E) row = Inr (map (\<lambda>i. map (emb_weight E (nat i)) [0..<embedding_dim E]) row)"
    by (rule map_err_Inr_map) (use assms in \<open>simp add: embedding_row_def\<close>)
  moreover have "is_mat (length row) (embedding_dim E)
                   (map (\<lambda>i. map (emb_weight E (nat i)) [0..<embedding_dim E]) row)"
    by (simp add: is_mat_def list_all_iff)
  ultimately show ?thesis by blast
qed

lemma map_err_batch:
  assumes "\<And>x. x \<in> set xs \<Longrightarrow> \<exists>y. f x = Inr y \<and> P y"
  shows "\<exists>ys. map_err f xs = Inr ys \<and> length ys = length xs \<and> list_all P ys"
proof -
  have a: "f x = Inr (projr (f x)) \<and> P (projr (f x))" if "x \<in> set xs" for x
    using assms[OF that] by auto
  have "map_err f xs = Inr (map (\<lambda>x. projr (f x)) xs)"
    by (rule map_err_Inr_map) (use a in simp)
  moreover have "list_all P (map (\<lambda>x. projr (f x)) xs)"
    using a by (simp add: list_all_iff)
  ultimately show ?thesis by simp
qed

lemma forward_logits:
  assumes wf: "wf_model m"
      and idx: "is_mat B T idx"
      and T: "T \<le> block_size_of m"
      and rng: "\<forall>row\<in>set idx. \<forall>i\<in>set row. 0 \<le> i \<and> i < int (vocab_of m)"
  shows "\<exists>lg. length lg = B \<and> list_all (is_mat T (vocab_of m)) lg
            \<and> forward m zeroed idx None = Inr (Logits3 lg, None)
            \<and> (\<forall>tg. forward m zeroed idx (Some tg) =
                      (if length (concat tg) \<noteq> length (concat lg) then Inl RuntimeError
                       else case cross_entropy (concat lg) (concat tg) of
                              Inl e \<Rightarrow> Inl e
                            | Inr l \<Rightarrow> Inr (Logits2 (concat lg), Some l)))"
proof -
  define C where "C = n_embd_of m"
  define bs where "bs = block_size_of m"
  define V where "V = vocab_of m"
  have C: "0 < C" and pd: "embedding_dim (position_embedding_table m) = C"
    and bl: "list_all (wf_block C bs) (blocks m)"
    and lnf: "ln_dim (ln_f m) = C" and hd: "lin_in (lm_head m) = C" "lin_out (lm_head m) = V"
    using wf by (simp_all add: wf_model_def C_def bs_def V_def)
  have td: "embedding_dim (token_embedding_table m) = C" by (simp add: C_def n_embd_of_def)
  have tn: "num_embeddings (token_embedding_table m) = V" by (simp add: V_def vocab_of_def)
  have pn: "num_embeddings (position_embedding_table m) = bs" by (simp add: bs_def block_size_of_def)
  have lenB: "length idx = B" using idx by (rule is_mat_length)
  \<comment> \<open>token embeddings\<close>
  have "\<exists>x. map_err (embedding_row (token_embedding_table m)) row = Inr x \<and> is_mat T C x"
    if "row \<in> set idx" for row
    using embedding_rows_ok[of row "token_embedding_table m"] rng that is_mat_rows[OF idx that]
    by (simp add: td tn V_def)
  from map_err_batch[of idx "map_err (embedding_row (token_embedding_table m))" "is_mat T C", OF this]
  obtain tok where tok: "map_err (map_err (embedding_row (token_embedding_table m))) idx = Inr tok"
    and tokl: "length tok = B" and toks: "list_all (is_mat T C) tok"
    using lenB by auto
  \<comment> \<open>position embeddings\<close>
  define T' where "T' = ncols idx"
  have T': "T' \<le> bs" "0 < B \<Longrightarrow> T' = T"
  proof -
    show "0 < B \<Longrightarrow> T' = T" using idx by (simp add: T'_def is_mat_ncols)
    show "T' \<le> bs"
    proof (cases "B = 0")
      case True
      then have "idx = []" using lenB by simp
      then show ?thesis by (simp add: T'_def ncols_def)
    next
      case False
      then have "T' = T" using idx by (simp add: T'_def is_mat_ncols)
      then show ?thesis using T by (simp add: bs_def)
    qed
  qed
  have "\<forall>i\<in>set (map int [0..<T']). 0 \<le> i \<and> i < int (num_embeddings (position_embedding_table m))"
    using T'(1) by (auto simp: pn)
  from embedding_rows_ok[OF this]
  obtain pos where pos: "map_err (embedding_row (position_embedding_table m)) (map int [0..<T']) = Inr pos"
    and poss: "is_mat T' C pos"
    by (auto simp: pd)
  \<comment> \<open>sum\<close>
  have "\<exists>y. mat_add t pos = Inr y \<and> is_mat T C y" if "t \<in> set tok" for t
  proof -
    have "0 < B" using that tokl by (cases tok) auto
    then have "is_mat T C pos" using poss T'(2) by simp
    moreover have "is_mat T C t" using toks that by (simp add: list_all_iff)
    ultimately show ?thesis by (intro mat_add_ok)
  qed
  from map_err_batch[of tok "\<lambda>t. mat_add t pos" "is_mat T C", OF this]
  obtain x where x: "map_err (\<lambda>t. mat_add t pos) tok = Inr x"
    and xl: "length x = B" and xs: "list_all (is_mat T C) x"
    using tokl by auto
  \<comment> \<open>blocks\<close>
  have "\<exists>y. blocks_forward (blocks m) (lm_training m) (sub zeroed b) 0 (x ! b) = Inr y \<and> is_mat T C y"
    if "b \<in> set [0..<length x]" for b
  proof -
    have "is_mat T C (x ! b)" using xs that by (simp add: list_all_length)
    from blocks_forward_ok[OF bl this C] T show ?thesis by (simp add: bs_def)
  qed
  from map_err_batch[of "[0..<length x]"
        "\<lambda>b. blocks_forward (blocks m) (lm_training m) (sub zeroed b) 0 (x ! b)" "is_mat T C", OF this]
  obtain x1 where x1: "map_err (\<lambda>b. blocks_forward (blocks m) (lm_training m) (sub zeroed b) 0 (x ! b))
                          [0..<length x] = Inr x1"
    and x1l: "length x1 = B" and x1s: "list_all (is_mat T C) x1"
    using xl by auto
  \<comment> \<open>final normalisation and head\<close>
  have "\<exists>y. layer_norm_fwd (ln_f m) s = Inr y \<and> is_mat T C y" if "s \<in> set x1" for s
    using layer_norm_fwd_ok[of T "ln_f m" s] x1s that by (simp add: lnf list_all_iff)
  from map_err_batch[of x1 "layer_norm_fwd (ln_f m)" "is_mat T C", OF this]
  obtain x2 where x2: "map_err (layer_norm_fwd (ln_f m)) x1 = Inr x2"
    and x2l: "length x2 = B" and x2s: "list_all (is_mat T C) x2"
    using x1l by auto
  have "\<exists>y. linear_fwd (lm_head m) s = Inr y \<and> is_mat T V y" if "s \<in> set x2" for s
  proof -
    have "is_mat T (lin_in (lm_head m)) s" using x2s that by (simp add: hd list_all_iff)
    from linear_fwd_ok[OF this] show ?thesis by (simp add: hd)
  qed
  from map_err_batch[of x2 "linear_fwd (lm_head m)" "is_mat T V", OF this]
  obtain lg where lg: "map_err (linear_fwd (lm_head m)) x2 = Inr lg"
    and lgl: "length lg = B" and lgs: "list_all (is_mat T V) lg"
    using x2l by auto
  have "forward m zeroed idx None = Inr (Logits3 lg, None)"
    by (simp add: forward_def tok pos[unfolded T'_def] x x1 x2 lg)
  moreover have "forward m zeroed idx (Some tg) =
                      (if length (concat tg) \<noteq> length (concat lg) then Inl RuntimeError
                       else case cross_entropy (concat lg) (concat tg) of
                              Inl e \<Rightarrow> Inl e
                            | Inr l \<Rightarrow> Inr (Logits2 (concat lg), Some l))" for tg
    by (simp add: forward_def tok pos[unfolded T'_def] x x1 x2 lg)
  ultimately show ?thesis using lgl lgs by (auto simp: V_def)
qed


subsection \<open>Cross-entropy\<close>

lemma exp_le_sum_list_exp:
  "y < length row \<Longrightarrow> exp (row ! y) \<le> sum_list (map exp (row :: real list))"
proof (induction row arbitrary: y)
  case Nil
  then show ?case by simp
next
  case (Cons a row)
  have nn: "0 \<le> sum_list (map exp row)" by (rule sum_list_nonneg_real) auto
  show ?case
  proof (cases y)
    case 0
    then show ?thesis using nn by simp
  next
    case (Suc y')
    then have "exp (row ! y') \<le> sum_list (map exp row)" using Cons by simp
    moreover have "0 \<le> exp a" by simp
    ultimately have "exp (row ! y') \<le> exp a + sum_list (map exp row)" by linarith
    then show ?thesis using Suc by simp
  qed
qed

lemma log_softmax_at_nonpos:
  assumes "y < length row"
  shows "log_softmax_at row y \<le> 0"
proof -
  have "exp (row ! y) \<le> sum_list (map exp row)" using assms by (rule exp_le_sum_list_exp)
  moreover have "0 < exp (row ! y)" by simp
  ultimately have "ln (exp (row ! y)) \<le> ln (sum_list (map exp row))"
    by (rule ln_mono)
  then show ?thesis by (simp add: log_softmax_at_def)
qed

lemma cross_entropy_value:
  assumes lg: "is_mat N V lg" and tg: "length tg = N"
      and rng: "\<forall>y\<in>set tg. 0 \<le> y \<and> y < int V"
  shows "cross_entropy lg tg =
           Inr (if N = 0 then NaN
                else Loss (sum_list (map (\<lambda>(row, y). - log_softmax_at row (nat y)) (zip lg tg)) / real N))"
    and "0 \<le> sum_list (map (\<lambda>(row, y). - log_softmax_at row (nat y)) (zip lg tg)) / real N"
proof -
  have len: "length lg = length tg" using lg tg by (simp add: is_mat_length)
  have pair: "length row = V \<and> 0 \<le> y \<and> y < int V" if "(row, y) \<in> set (zip lg tg)" for row y
    using that is_mat_rows[OF lg, of row] rng by (auto dest: set_zip_leftD set_zip_rightD)
  have no_err: "\<not> (\<exists>(row, y)\<in>set (zip lg tg). y \<noteq> - 100 \<and> (y < 0 \<or> int (length row) \<le> y))"
    using pair by fastforce
  have keep: "filter (\<lambda>(row, y). y \<noteq> - 100) (zip lg tg) = zip lg tg"
    by (rule filter_True) (use pair in fastforce)
  have z: "zip lg tg = [] \<longleftrightarrow> N = 0" using len tg by (cases lg; cases tg) auto
  have lz: "length (zip lg tg) = N" using len tg by simp
  show "cross_entropy lg tg =
           Inr (if N = 0 then NaN
                else Loss (sum_list (map (\<lambda>(row, y). - log_softmax_at row (nat y)) (zip lg tg)) / real N))"
    unfolding cross_entropy_def keep Let_def using len no_err z lz by simp
  have "0 \<le> v" if "v \<in> set (map (\<lambda>(row, y). - log_softmax_at row (nat y)) (zip lg tg))" for v
  proof -
    from that obtain row y where ry: "(row, y) \<in> set (zip lg tg)" "v = - log_softmax_at row (nat y)"
      by auto
    from pair[OF ry(1)] have "nat y < length row" by auto
    from log_softmax_at_nonpos[OF this] show "0 \<le> v" by (simp add: ry(2))
  qed
  then have "0 \<le> sum_list (map (\<lambda>(row, y). - log_softmax_at row (nat y)) (zip lg tg))"
    by (rule sum_list_nonneg_real)
  then show "0 \<le> sum_list (map (\<lambda>(row, y). - log_softmax_at row (nat y)) (zip lg tg)) / real N"
    by simp
qed

lemma concat_is_mat:
  assumes "length xs = B" "list_all (is_mat T V) xs"
  shows "is_mat (B * T) V (concat xs)"
  using assms
proof (induction xs arbitrary: B)
  case Nil
  then show ?case by (simp add: is_mat_def)
next
  case (Cons x xs)
  then have "is_mat (length xs * T) V (concat xs)" by simp
  moreover have "is_mat T V x" using Cons.prems by simp
  ultimately show ?case using Cons.prems(1) by (auto simp: is_mat_def)
qed

lemma concat_length_is_mat: "is_mat B T tg \<Longrightarrow> length (concat tg) = B * T"
  by (simp add: length_concat_const[of tg "\<lambda>x. x", simplified] is_mat_def list_all_iff)

section \<open>The generation loop\<close>

text \<open>
  The loop only ever appends to the rows of the running sequence; on a well-formed model
  and non-empty rows of valid token ids every pass succeeds.
\<close>

lemma pick_less: "probs \<noteq> [] \<Longrightarrow> pick u probs < length probs"
  by (induction u probs rule: pick.induct) simp_all

lemma softmax_length: "length (softmax row) = length row"
  by (simp add: softmax_def)

lemma map_err_length: "map_err f xs = Inr ys \<Longrightarrow> length ys = length xs"
  by (simp add: map_err_Inr_iff)

lemma forward_length:
  assumes "forward m zeroed idx None = Inr (Logits3 lg, l)"
  shows "length lg = length idx"
  using assms
  by (auto simp: forward_def Let_def split: sum.splits dest!: map_err_length)

lemma generate_step_frame:
  assumes "generate_step m bs zeroed unif idx = Inr idx'"
  shows "length idx' = length idx \<and> (\<forall>b<length idx. \<exists>tok. idx' ! b = idx ! b @ [tok])"
proof -
  from assms obtain lg l final idx_next where
    f: "forward m zeroed (map (crop bs) idx) None = Inr (Logits3 lg, l)"
    and fin: "map_err last_step lg = Inr final"
    and nxt: "map_err (\<lambda>b. multinomial (unif [b]) (softmax (final ! b))) [0..<length final] = Inr idx_next"
    and res: "idx' = map (\<lambda>(row, tok). row @ [tok]) (zip idx idx_next)"
    by (auto simp: generate_step_def Let_def split: sum.splits logits.splits)
  have "length lg = length idx" using forward_length[OF f] by simp
  moreover have "length final = length lg" using fin by (rule map_err_length)
  moreover have "length idx_next = length final" using map_err_length[OF nxt] by simp
  ultimately have len: "length idx_next = length idx" by simp
  then show ?thesis by (auto simp: res)
qed

lemma generate_loop_frame:
  assumes "generate_loop m bs zeroed unif k idx n = Inr out"
  shows "length out = length idx
       \<and> (\<forall>b<length idx. take (length (idx ! b)) (out ! b) = idx ! b
                         \<and> length (out ! b) = length (idx ! b) + n)"
  using assms
proof (induction n arbitrary: k idx)
  case 0
  then show ?case by simp
next
  case (Suc n)
  from Suc.prems obtain idx' where
    st: "generate_step m bs (sub zeroed k) (sub unif k) idx = Inr idx'"
    and lp: "generate_loop m bs zeroed unif (Suc k) idx' n = Inr out"
    by (auto split: sum.splits)
  from generate_step_frame[OF st]
  have l': "length idx' = length idx" and app: "\<forall>b<length idx. \<exists>tok. idx' ! b = idx ! b @ [tok]"
    by simp_all
  from Suc.IH[OF lp]
  have lo: "length out = length idx'"
    and pre: "\<forall>b<length idx'. take (length (idx' ! b)) (out ! b) = idx' ! b
                         \<and> length (out ! b) = length (idx' ! b) + n"
    by simp_all
  have "take (length (idx ! b)) (out ! b) = idx ! b \<and> length (out ! b) = length (idx ! b) + Suc n"
    if b: "b < length idx" for b
  proof -
    obtain tok where t: "idx' ! b = idx ! b @ [tok]" using app b by blast
    have p: "take (length (idx' ! b)) (out ! b) = idx' ! b" and q: "length (out ! b) = length (idx' ! b) + n"
      using pre b l' by simp_all
    have "take (length (idx ! b)) (take (Suc (length (idx ! b))) (out ! b)) = take (length (idx ! b)) (out ! b)"
      by (simp add: min_def)
    moreover have "take (Suc (length (idx ! b))) (out ! b) = idx ! b @ [tok]"
      using p by (simp add: t)
    ultimately have "take (length (idx ! b)) (out ! b) = idx ! b" by simp
    then show ?thesis using q by (simp add: t)
  qed
  then show ?case using lo l' by simp
qed

lemma crop_length: "0 < bs \<Longrightarrow> length (crop bs row) = min (length row) bs"
  by (simp add: crop_def)

lemma crop_set: "set (crop bs row) \<subseteq> set row"
  by (simp add: crop_def set_drop_subset)

lemma generate_step_ok:
  assumes wf: "wf_model m" and bs: "0 < block_size_of m"
      and idx: "is_mat B T idx" and T: "0 < T"
      and rng: "\<forall>row\<in>set idx. \<forall>i\<in>set row. 0 \<le> i \<and> i < int (vocab_of m)"
  shows "\<exists>lg. forward m zeroed (map (crop (block_size_of m)) idx) None = Inr (Logits3 lg, None)
            \<and> generate_step m (block_size_of m) zeroed unif idx
                = Inr (map (\<lambda>b. idx ! b @ [int (pick (unif [b]) (softmax (last (lg ! b))))]) [0..<B])
            \<and> is_mat B (Suc T)
                 (map (\<lambda>b. idx ! b @ [int (pick (unif [b]) (softmax (last (lg ! b))))]) [0..<B])
            \<and> (\<forall>b<B. int (pick (unif [b]) (softmax (last (lg ! b)))) < int (vocab_of m))"
proof -
  define n where "n = block_size_of m"
  define V where "V = vocab_of m"
  define T' where "T' = min T n"
  define cond where "cond = map (crop n) idx"
  have T': "0 < T'" "T' \<le> n" using T bs by (simp_all add: T'_def n_def)
  have lenB: "length idx = B" using idx by (rule is_mat_length)
  have cs: "is_mat B T' cond"
    unfolding cond_def using idx
    by (rule is_mat_map) (use bs in \<open>simp add: crop_length is_mat_rows[OF idx] T'_def n_def\<close>)
  have cr: "\<forall>row\<in>set cond. \<forall>i\<in>set row. 0 \<le> i \<and> i < int (vocab_of m)"
    using rng crop_set by (fastforce simp: cond_def)
  obtain lg where ll: "length lg = B" and ls: "list_all (is_mat T' V) lg"
    and f0: "forward m zeroed cond None = Inr (Logits3 lg, None)"
    using forward_logits[OF wf cs T'(2)[unfolded n_def] cr, of zeroed] by (auto simp: V_def)
  have row: "lg ! b \<noteq> [] \<and> length (last (lg ! b)) = V" if "b < B" for b
  proof -
    have s: "is_mat T' V (lg ! b)" using ls ll that by (simp add: list_all_length)
    then have ne: "lg ! b \<noteq> []" using T'(1) by (auto simp: is_mat_def)
    then have "last (lg ! b) \<in> set (lg ! b)" by simp
    then show ?thesis using ne is_mat_rows[OF s] by simp
  qed
  have fin: "map_err last_step lg = Inr (map last lg)"
  proof (rule map_err_Inr_map)
    fix s assume "s \<in> set lg"
    then obtain b where "b < B" "s = lg ! b" using ll by (auto simp: in_set_conv_nth)
    then show "last_step s = Inr (last s)" using row by (simp add: last_step_def)
  qed
  have Vpos: "0 < V" if "0 < B"
  proof -
    have m0: "idx ! 0 \<in> set idx" using that lenB by simp
    then have "length (idx ! 0) = T" by (rule is_mat_rows[OF idx])
    then have "idx ! 0 \<noteq> []" using T by auto
    then have "hd (idx ! 0) \<in> set (idx ! 0)" by simp
    with rng m0 have "0 \<le> hd (idx ! 0) \<and> hd (idx ! 0) < int V" by (auto simp: V_def)
    then show ?thesis by simp
  qed
  define tok where "tok = (\<lambda>b. int (pick (unif [b]) (softmax (last (lg ! b)))))"
  have tok_lt: "tok b < int V" if "b < B" for b
  proof -
    have "softmax (last (lg ! b)) \<noteq> []"
      using row[OF that] Vpos that by (auto simp: softmax_def)
    from pick_less[OF this, of "unif [b]"] show ?thesis
      using row[OF that] by (simp add: tok_def softmax_length)
  qed
  have nxt: "map_err (\<lambda>b. multinomial (unif [b]) (softmax (map last lg ! b))) [0..<length lg]
               = Inr (map tok [0..<B])"
    unfolding ll
  proof (rule map_err_Inr_map)
    fix b assume "b \<in> set [0..<B]"
    then have b: "b < B" by simp
    have "softmax (last (lg ! b)) \<noteq> []"
      using row[OF b] Vpos b by (auto simp: softmax_def)
    then show "multinomial (unif [b]) (softmax (map last lg ! b)) = Inr (tok b)"
      using b ll by (simp add: multinomial_def tok_def)
  qed
  have z: "map (\<lambda>(row, t). row @ [t]) (zip idx (map tok [0..<B])) = map (\<lambda>b. idx ! b @ [tok b]) [0..<B]"
    using lenB by (auto intro!: nth_equalityI)
  have step: "generate_step m n zeroed unif idx = Inr (map (\<lambda>b. idx ! b @ [tok b]) [0..<B])"
    by (simp add: generate_step_def cond_def[symmetric] f0 fin nxt z)
  have shape: "is_mat B (Suc T) (map (\<lambda>b. idx ! b @ [tok b]) [0..<B])"
    by (rule is_matI) (simp_all add: is_mat_nth[OF idx])
  show ?thesis
    using f0 step shape tok_lt by (auto simp: n_def V_def tok_def cond_def)
qed


lemma generate_loop_ok:
  assumes wf: "wf_model m" and bs: "0 < block_size_of m"
      and idx: "is_mat B T idx" and T: "0 < T"
      and rng: "\<forall>row\<in>set idx. \<forall>i\<in>set row. 0 \<le> i \<and> i < int (vocab_of m)"
  shows "\<exists>out. generate_loop m (block_size_of m) zeroed unif k idx n = Inr out
             \<and> is_mat B (T + n) out
             \<and> (\<forall>row\<in>set out. \<forall>i\<in>set row. 0 \<le> i \<and> i < int (vocab_of m))"
  using idx T rng
proof (induction n arbitrary: k idx T)
  case 0
  then show ?case by simp
next
  case (Suc n)
  define tok where "tok = (\<lambda>lg b. int (pick (sub unif k [b]) (softmax (last (lg ! b)))))"
  from generate_step_ok[OF wf bs Suc.prems, of "sub zeroed k" "sub unif k"]
  obtain lg where
    st: "generate_step m (block_size_of m) (sub zeroed k) (sub unif k) idx
           = Inr (map (\<lambda>b. idx ! b @ [tok lg b]) [0..<B])"
    and sh: "is_mat B (Suc T) (map (\<lambda>b. idx ! b @ [tok lg b]) [0..<B])"
    and lt: "\<forall>b<B. tok lg b < int (vocab_of m)"
    by (auto simp: tok_def)
  define idx' where "idx' = map (\<lambda>b. idx ! b @ [tok lg b]) [0..<B]"
  have lenB: "length idx = B" using Suc.prems(1) by (rule is_mat_length)
  have r': "\<forall>row\<in>set idx'. \<forall>i\<in>set row. 0 \<le> i \<and> i < int (vocab_of m)"
  proof (intro ballI)
    fix row i assume "row \<in> set idx'" "i \<in> set row"
    then obtain b where b: "b < B" "i \<in> set (idx ! b) \<or> i = tok lg b"
      by (auto simp: idx'_def)
    have "idx ! b \<in> set idx" using b(1) lenB by simp
    then show "0 \<le> i \<and> i < int (vocab_of m)"
      using b lt Suc.prems(3) by (auto simp: tok_def)
  qed
  from Suc.IH[OF sh[folded idx'_def] _ r', of "Suc k"]
  obtain out where "generate_loop m (block_size_of m) zeroed unif (Suc k) idx' n = Inr out"
    "is_mat B (Suc T + n) out" "\<forall>row\<in>set out. \<forall>i\<in>set row. 0 \<le> i \<and> i < int (vocab_of m)"
    by auto
  then show ?case by (simp add: st idx'_def)
qed

lemma generate_loop_Suc_end:
  "generate_loop m bs zeroed unif j idx (Suc n) =
     (case generate_loop m bs zeroed unif j idx n of
        Inl e \<Rightarrow> Inl e
      | Inr cur \<Rightarrow> generate_step m bs (sub zeroed (j + n)) (sub unif (j + n)) cur)"
proof (induction n arbitrary: j idx)
  case 0
  show ?case by (cases "generate_step m bs (sub zeroed j) (sub unif j) idx") simp_all
next
  case (Suc n)
  show ?case
  proof (cases "generate_step m bs (sub zeroed j) (sub unif j) idx")
    case (Inl e)
    then show ?thesis by simp
  next
    case (Inr idx')
    have a: "generate_loop m bs zeroed unif j idx (Suc (Suc n))
            = generate_loop m bs zeroed unif (Suc j) idx' (Suc n)"
      using Inr by simp
    have b: "generate_loop m bs zeroed unif (Suc j) idx' (Suc n)
               = (case generate_loop m bs zeroed unif (Suc j) idx' n of
                    Inl e \<Rightarrow> Inl e
                  | Inr cur \<Rightarrow> generate_step m bs (sub zeroed (Suc j + n)) (sub unif (Suc j + n)) cur)"
      by (rule Suc.IH)
    have c: "generate_loop m bs zeroed unif j idx (Suc n) = generate_loop m bs zeroed unif (Suc j) idx' n"
      using Inr by simp
    show ?thesis unfolding a b c add_Suc_shift ..
  qed
qed

section \<open>Construction of a block\<close>

text \<open>
  The constructor succeeds for every positive number of heads, whether or not it divides
  the embedding width; with an uneven split the block fails in \<open>forward\<close>, at the
  projection of the concatenated heads.
\<close>

lemma Head_init_ok:
  assumes "0 \<le> p" "p \<le> 1"
  shows "\<exists>h. Head_init ini hs C bs p = Inr h \<and> wf_head C hs bs h"
  using assms by (simp add: Head_init_def Dropout_init_def wf_head_def Linear_init_def)

lemma MultiHeadAttention_init_ok:
  assumes "0 \<le> hp" "hp \<le> 1" "0 \<le> mp" "mp \<le> 1"
  shows "\<exists>a. MultiHeadAttention_init ini n hs C bs hp mp = Inr a
           \<and> length (mha_heads a) = n \<and> list_all (wf_head C hs bs) (mha_heads a)
           \<and> lin_in (mha_proj a) = C \<and> lin_out (mha_proj a) = C"
proof -
  have "\<exists>h. Head_init (sub (sub ini 0) i) hs C bs hp = Inr h \<and> wf_head C hs bs h" for i
    using assms(1,2) by (rule Head_init_ok)
  from map_err_batch[of "[0..<n]" "\<lambda>i. Head_init (sub (sub ini 0) i) hs C bs hp" "wf_head C hs bs", OF this]
  obtain heads where "map_err (\<lambda>i. Head_init (sub (sub ini 0) i) hs C bs hp) [0..<n] = Inr heads"
    "length heads = n" "list_all (wf_head C hs bs) heads"
    by auto
  then show ?thesis
    using assms(3,4) by (simp add: MultiHeadAttention_init_def Dropout_init_def Linear_init_def)
qed

lemma Block_init_ok:
  assumes "0 < n_head"
      and "0 \<le> hp" "hp \<le> 1" "0 \<le> mp" "mp \<le> 1" "0 \<le> fp" "fp \<le> 1" "0 \<le> bp" "bp \<le> 1"
  shows "\<exists>b. Block_init ini n_embd n_head bs widen hp mp fp bp = Inr b
           \<and> length (mha_heads (blk_sa b)) = n_head
           \<and> list_all (wf_head n_embd (n_embd div n_head) bs) (mha_heads (blk_sa b))
           \<and> lin_in (mha_proj (blk_sa b)) = n_embd \<and> lin_out (mha_proj (blk_sa b)) = n_embd
           \<and> wf_ff n_embd (blk_ffwd b)
           \<and> ln_dim (blk_ln1 b) = n_embd \<and> ln_dim (blk_ln2 b) = n_embd"
proof -
  obtain a where a: "MultiHeadAttention_init (sub ini 0) n_head (n_embd div n_head) n_embd bs hp mp = Inr a"
    "length (mha_heads a) = n_head" "list_all (wf_head n_embd (n_embd div n_head) bs) (mha_heads a)"
    "lin_in (mha_proj a) = n_embd" "lin_out (mha_proj a) = n_embd"
    using MultiHeadAttention_init_ok[OF assms(2-5)] by blast
  show ?thesis
    using assms a
    by (simp add: Block_init_def FeedFoward_init_def Dropout_init_def wf_ff_def Linear_init_def
        LayerNorm_init_def)
qed

lemma mult_div_eq_iff_dvd: "(n::nat) * (c div n) = c \<longleftrightarrow> n dvd c"
  by (metis dvd_triv_left dvd_mult_div_cancel)

lemma Block_forward_uneven:
  assumes heads: "list_all (wf_head C (C div length (mha_heads (blk_sa b))) bs) (mha_heads (blk_sa b))"
      and ne: "mha_heads (blk_sa b) \<noteq> []"
      and proj: "lin_in (mha_proj (blk_sa b)) = C"
      and ln: "ln_dim (blk_ln1 b) = C"
      and nd: "\<not> length (mha_heads (blk_sa b)) dvd C"
      and x: "is_mat T C x" and T: "0 < T" "T \<le> bs"
  shows "Block_forward b training zeroed x = Inl RuntimeError"
proof -
  define n where "n = length (mha_heads (blk_sa b))"
  define hs where "hs = C div n"
  have C: "0 < C" using nd by (cases "C = 0") auto
  obtain n1 where n1: "layer_norm_fwd (blk_ln1 b) x = Inr n1" and n1s: "is_mat T C n1"
    using layer_norm_fwd_ok[of T "blk_ln1 b" x] x ln by auto
  obtain outs where o: "map_err (\<lambda>i. Head_forward (mha_heads (blk_sa b) ! i) training
                                    (sub (sub (sub zeroed 0) 0) i) n1)
                          [0..<length (mha_heads (blk_sa b))] = Inr outs"
    and ol: "length outs = n" and os: "\<forall>out\<in>set outs. is_mat T hs out"
    using heads_forward_ok[OF heads n1s C T(2), of training "sub zeroed 0"] by (auto simp: n_def hs_def)
  have "outs \<noteq> []" using ol ne by (auto simp: n_def)
  then obtain y where y: "cat_last outs = Inr y" and ys: "is_mat T (length outs * hs) y"
    using cat_last_ok[of outs T hs] os by blast
  have "n * hs \<noteq> C" using nd by (simp add: hs_def n_def mult_div_eq_iff_dvd)
  then have "length outs * hs \<noteq> lin_in (mha_proj (blk_sa b))" using ol proj by simp
  from linear_fwd_bad_width[OF ys T(1) this]
  have "MultiHeadAttention_forward (blk_sa b) training (sub zeroed 0) n1 = Inl RuntimeError"
    by (simp add: MultiHeadAttention_forward_def o y)
  then show ?thesis by (simp add: Block_forward_def n1)
qed

section \<open>The training cell\<close>

text \<open>
  The call \<open>estimate_loss("train")\<close> of the loop passes one argument to a function of two
  required parameters, and the call \<open>Block(n_embd, n_head=n_head)\<close> of the model's
  constructor leaves the required parameter \<open>block_size\<close> unbound: both raise \<open>TypeError\<close>.
\<close>

lemma estimate_loss_call_one_arg:
  "estimate_loss_call c hp raw zeroed [a] [] = Inl TypeError"
  by (simp add: estimate_loss_call_def py_call_def estimate_loss_params_def)

lemma train_iter_first:
  assumes "0 < hp_eval_interval hp"
  shows "train_iter c hp raw zeroed update 0 st = (Some TypeError, st)"
  using assms by (simp add: train_iter_def evaluate_and_log_def estimate_loss_call_one_arg)

lemma training_loop_TypeError:
  assumes "0 < hp_max_iters hp" "0 < hp_eval_interval hp"
  shows "training_loop c hp raw zeroed update st = (Some TypeError, st)"
proof -
  have "[0..<hp_max_iters hp] = 0 # [1..<hp_max_iters hp]"
    using assms(1) by (simp add: upt_conv_Cons)
  then show ?thesis
    by (simp add: training_loop_def train_iter_first[OF assms(2)])
qed

lemma Block_call_missing_block_size:
  "Block_call ini [PInt n_embd] [(''n_head'', PInt n_head)] = Inl TypeError"
  by (simp add: Block_call_def py_call_def Block_params_def)

lemma LanguageModel_init_TypeError:
  assumes "0 < n_layer"
  shows "LanguageModel_init ini vocab n_embd bs n_head n_layer = Inl TypeError"
proof -
  have "[0..<n_layer] = 0 # [1..<n_layer]" using assms by (simp add: upt_conv_Cons)
  then show ?thesis by (simp add: LanguageModel_init_def Block_call_missing_block_size)
qed

lemma training_cell_TypeError:
  assumes "0 < hp_n_layer hp"
  shows "training_cell c hp vocab ini raw zeroed update log0 = (Some TypeError, log0)"
  by (simp add: training_cell_def LanguageModel_init_TypeError[OF assms])

text \<open>
  A call that supplies every required argument runs the body: the three-argument call of
  the block's constructor takes the defaults of the other five parameters, and the
  two-argument call of \<open>estimate_loss\<close> is the function itself.
\<close>

lemma Block_call_three_args:
  "Block_call ini [PInt n_embd, PInt n_head, PInt block_size] []
     = Block_init ini n_embd n_head block_size 4 (1 / 10) (1 / 10) (1 / 10) (1 / 10)"
  by (simp add: Block_call_def py_call_def Block_params_def is_zero_def is_int_def as_size_def
      as_rate_def Block_init_def)

text \<open>
  A dropout rate given as the integer 0 or 1 is accepted; a size given as a float is not,
  whatever its value.
\<close>

lemma Block_call_integer_rate:
  "Block_call ini [PInt n_embd, PInt n_head, PInt block_size] [(''block_dropout'', PInt 1)]
     = Block_init ini n_embd n_head block_size 4 (1 / 10) (1 / 10) (1 / 10) 1"
  by (simp add: Block_call_def py_call_def Block_params_def is_zero_def is_int_def as_size_def
      as_rate_def Block_init_def)

lemma Block_call_float_size:
  "Block_call ini [PFloat 64, PInt 16, PInt 64] [] = Inl TypeError
   \<and> Block_call ini [PInt 64, PFloat 16, PInt 64] [] = Inl TypeError
   \<and> Block_call ini [PInt 64, PInt 16, PFloat 64] [] = Inl TypeError
   \<and> Block_call ini [PInt 64, PFloat 0, PInt 64] [] = Inl ZeroDivisionError"
  by (simp add: Block_call_def py_call_def Block_params_def is_zero_def is_int_def)

lemma Block_call_float_widen:
  "Block_call zero_init [PInt 1, PInt 1, PInt 2, PFloat 4] [] = Inl TypeError
   \<and> Block_call zero_init [PInt 1, PInt 1, PInt 2, PFloat 4, PInt 2] [] = Inl ValueError"
  by (simp add: Block_call_def py_call_def Block_params_def is_zero_def is_int_def as_size_def
      as_rate_def MultiHeadAttention_init_def Head_init_def Dropout_init_def)

lemma estimate_loss_call_two_args:
  "estimate_loss_call c hp raw zeroed [AStr mode, AModel m] [] = estimate_loss c hp raw zeroed mode m"
  by (simp add: estimate_loss_call_def py_call_def estimate_loss_params_def)

text \<open>
  With no layers the constructor of the model calls no block constructor and returns; the
  model it returns is well formed when its embedding width is positive.
\<close>

lemma LanguageModel_init_no_layers:
  assumes "0 < n_embd"
  shows "\<exists>m. LanguageModel_init ini vocab n_embd bs n_head 0 = Inr m \<and> wf_model m
           \<and> vocab_of m = vocab \<and> block_size_of m = bs \<and> lm_training m"
  using assms
  by (simp add: LanguageModel_init_def wf_model_def n_embd_of_def vocab_of_def block_size_of_def
      Embedding_init_def LayerNorm_init_def Linear_init_def)

section \<open>The concrete inputs evaluated\<close>

lemma sub_zero_init: "sub zero_init k = zero_init"
  by (simp add: sub_def zero_init_def)

lemma tiny_block_constructed:
  "Block_init zero_init 1 1 2 4 (1 / 10) (1 / 10) (1 / 10) (1 / 10) = Inr tiny_block"
  by (simp add: Block_init_def MultiHeadAttention_init_def Head_init_def Dropout_init_def
      FeedFoward_init_def tiny_block_def tiny_head_def sub_zero_init)

lemma wf_tiny_head: "wf_head 1 1 2 tiny_head"
  by (simp add: wf_head_def tiny_head_def Linear_init_def)

lemma wf_tiny_block: "wf_block 1 2 tiny_block"
  using wf_tiny_head
  by (simp add: wf_block_def wf_mha_def wf_ff_def tiny_block_def Linear_init_def LayerNorm_init_def)

lemma wf_tiny_model: "wf_model tiny_model"
  using wf_tiny_block
  by (simp add: wf_model_def tiny_model_def n_embd_of_def vocab_of_def block_size_of_def
      Embedding_init_def LayerNorm_init_def Linear_init_def)

lemma four_powr: "(4::real) powr (- (1 / 2)) = 1 / 2"
proof -
  have "(4::real) powr (1 / 2) = sqrt 4" by (rule powr_half_sqrt) simp
  also have "\<dots> = 2" by (rule real_sqrt_four)
  finally have "(4::real) powr (1 / 2) = 2" .
  moreover have "(4::real) powr (- (1 / 2)) = inverse (4 powr (1 / 2))" by (rule powr_minus)
  ultimately show ?thesis by (simp only: inverse_eq_divide)
qed

lemma ones_head_scores: "Head_scores ones_head [[1, 1, 1, 1]] = Inr [[8]]"
  by (simp add: Head_scores_def last_dim_def ones_head_def linear_fwd_def linear_row_def linear_apply_def
      dot_def matmul_transposed_def ncols_def dotv_def inv_sqrt_def four_powr
      lessThan_nat_numeral lessThan_Suc)

lemma tiny_forward_targets:
  "forward tiny_model zeroed [[0, 0]] (Some [[0, 0]]) = Inr (Logits2 [[0, 0], [0, 0]], Some (Loss (ln 2)))"
  apply (simp add: forward_def tiny_model_def ncols_def Embedding_init_def embedding_row_def zero_init_def
     mat_add_def tiny_block_def tiny_head_def Block_forward_def layer_norm_fwd_def layer_norm_row_def
     layer_norm_apply_def LayerNorm_init_def mean_def variance_def MultiHeadAttention_forward_def
     Head_forward_def Head_weights_def Head_scores_def last_dim_def linear_fwd_def linear_row_def linear_apply_def
     Linear_init_def dot_def dotv_def matmul_transposed_def inv_sqrt_def masked_fill_def tril_mask_def
     tril_ones_def softmax_scores_def exp_score_def dropout_def matmul_def cat_last_def
     FeedFoward_forward_def relu_def cross_entropy_def log_softmax_at_def sub_def upt_rec[of 0] upt_rec[of 1]
     upt_rec[of "Suc 0"] lessThan_nat_numeral lessThan_Suc)
  done

lemma tiny_forward_one:
  "forward tiny_model zeroed [[0]] None = Inr (Logits3 [[[0, 0]]], None)"
  by (simp add: forward_def tiny_model_def ncols_def Embedding_init_def embedding_row_def zero_init_def
     mat_add_def tiny_block_def tiny_head_def Block_forward_def layer_norm_fwd_def layer_norm_row_def
     layer_norm_apply_def LayerNorm_init_def mean_def variance_def MultiHeadAttention_forward_def
     Head_forward_def Head_weights_def Head_scores_def last_dim_def linear_fwd_def linear_row_def linear_apply_def
     Linear_init_def dot_def dotv_def matmul_transposed_def inv_sqrt_def masked_fill_def tril_mask_def
     tril_ones_def softmax_scores_def exp_score_def dropout_def matmul_def cat_last_def
     FeedFoward_forward_def relu_def sub_def upt_rec[of 0] upt_rec[of 1]
     upt_rec[of "Suc 0"] lessThan_nat_numeral lessThan_Suc)

lemma tiny_forward_two:
  "forward tiny_model zeroed [[0, 1]] None = Inr (Logits3 [[[0, 0], [0, 0]]], None)"
  by (simp add: forward_def tiny_model_def ncols_def Embedding_init_def embedding_row_def zero_init_def
     mat_add_def tiny_block_def tiny_head_def Block_forward_def layer_norm_fwd_def layer_norm_row_def
     layer_norm_apply_def LayerNorm_init_def mean_def variance_def MultiHeadAttention_forward_def
     Head_forward_def Head_weights_def Head_scores_def last_dim_def linear_fwd_def linear_row_def linear_apply_def
     Linear_init_def dot_def dotv_def matmul_transposed_def inv_sqrt_def masked_fill_def tril_mask_def
     tril_ones_def softmax_scores_def exp_score_def dropout_def matmul_def cat_last_def
     FeedFoward_forward_def relu_def sub_def upt_rec[of 0] upt_rec[of 1]
     upt_rec[of "Suc 0"] lessThan_nat_numeral lessThan_Suc)

lemma tiny_forward_empty:
  "forward tiny_model zeroed [[]] None = Inr (Logits3 [[]], None)"
  by (simp add: forward_def tiny_model_def ncols_def mat_add_def tiny_block_def Block_forward_def
        layer_norm_fwd_def MultiHeadAttention_forward_def Head_forward_def Head_weights_def
        Head_scores_def last_dim_def linear_fwd_def matmul_transposed_def inv_sqrt_def Linear_init_def
        tiny_head_def masked_fill_def tril_mask_def dropout_def matmul_def cat_last_def
        FeedFoward_forward_def relu_def)

lemma tiny_generate: "generate tiny_model 2 no_drop three_quarters [[0]] 2 = Inr [[0, 1, 1]]"
  by (simp add: generate_def numeral_2_eq_2 generate_step_def crop_def tiny_forward_one tiny_forward_two
      last_step_def softmax_def multinomial_def three_quarters_def sub_def)

lemma tiny_generate_empty_seed: "generate tiny_model 2 no_drop three_quarters [[]] 1 = Inl IndexError"
  by (simp add: generate_def generate_step_def crop_def tiny_forward_empty last_step_def)

lemma uneven_block_constructed:
  "Block_init zero_init 65 16 64 4 (1 / 10) (1 / 10) (1 / 10) (1 / 10) = Inr uneven_block"
proof -
  have "map_err (\<lambda>i. Head_init zero_init 4 65 64 (1 / 10)) [0..<16]
          = Inr (map (\<lambda>i. uneven_head) [0..<16])"
    by (rule map_err_Inr_map)
       (simp add: Head_init_def Dropout_init_def uneven_head_def sub_zero_init)
  then have "map_err (\<lambda>i. Head_init zero_init 4 65 64 (1 / 10)) [0..<16] = Inr (replicate 16 uneven_head)"
    by (simp add: map_replicate_const)
  then show ?thesis
    by (simp add: Block_init_def MultiHeadAttention_init_def Dropout_init_def
        FeedFoward_init_def uneven_block_def sub_zero_init)
qed

lemma narrow_head_constructed: "Head_init zero_init 1 1 1 (1 / 10) = Inr narrow_head"
  by (simp add: Head_init_def Dropout_init_def narrow_head_def sub_zero_init)

lemma wf_narrow_head: "wf_head 1 1 1 narrow_head"
  by (simp add: wf_head_def narrow_head_def Linear_init_def)

lemma narrow_head_scores: "Head_scores narrow_head [[0], [0]] = Inr [[0, 0], [0, 0]]"
  by (simp add: Head_scores_def last_dim_def narrow_head_def Linear_init_def zero_init_def
      linear_fwd_def linear_row_def linear_apply_def dot_def matmul_transposed_def ncols_def
      dotv_def inv_sqrt_def)

lemma narrow_head_mask: "tril_mask (head_tril narrow_head) 2 = [[False]]"
  by (simp add: tril_mask_def narrow_head_def tril_ones_def)

section \<open>The attention head and the forward pass: claims\<close>

text \<open>
  Claim C2, as written: for every input, every head and every layer, the attention weight
  from query position \<open>t\<close> to any key position \<open>t' > t\<close> is exactly zero. The mask is cut
  from the head's buffer, \<open>self.tril[:T, :T]\<close>, and the buffer has only \<open>block_size\<close> rows
  and columns. \<open>Head(1, 1, 1)\<close> has a buffer of one entry; on an input of two positions
  the mask is the single entry \<open>False\<close>, which \<open>masked_fill\<close> broadcasts over the scores, so
  that nothing is set to minus infinity. In evaluation mode the weight from position 0 to
  position 1 is \<open>1/2\<close>, not zero.
\<close>

theorem C2_short_mask_broadcasts_counterexample:
  "Head_init zero_init 1 1 1 (1 / 10) = Inr narrow_head
   \<and> wf_head 1 1 1 narrow_head
   \<and> is_mat 2 1 [[0], [0 :: real]]
   \<and> Head_scores narrow_head [[0], [0]] = Inr [[0, 0], [0, 0]]
   \<and> tril_mask (head_tril narrow_head) 2 = [[False]]
   \<and> masked_fill [[0, 0], [0, 0]] (tril_mask (head_tril narrow_head) 2)
        = Inr [[Finite 0, Finite 0], [Finite 0, Finite 0]]
   \<and> Head_weights narrow_head False no_drop [[0], [0]] = Inr [[1 / 2, 1 / 2], [1 / 2, 1 / 2]]
   \<and> (\<exists>wei. Head_weights narrow_head False no_drop [[0], [0]] = Inr wei \<and> wei ! 0 ! 1 \<noteq> 0)"
proof -
  have x: "is_mat 2 1 [[0], [0 :: real]]" by (simp add: is_mat_def)
  have mf: "masked_fill [[0, 0], [0, 0]] (tril_mask (head_tril narrow_head) 2)
              = Inr [[Finite 0, Finite 0], [Finite 0, Finite 0]]"
    by (simp add: narrow_head_mask masked_fill_def)
  have w: "Head_weights narrow_head False no_drop [[0], [0]] = Inr [[1 / 2, 1 / 2], [1 / 2, 1 / 2]]"
    unfolding Head_weights_def narrow_head_scores
    by (simp add: tril_mask_def tril_ones_def narrow_head_def masked_fill_def softmax_scores_def
        exp_score_def dropout_def)
  have "\<exists>wei. Head_weights narrow_head False no_drop [[0], [0]] = Inr wei \<and> wei ! 0 ! 1 \<noteq> 0"
    by (simp add: w)
  with narrow_head_constructed wf_narrow_head x narrow_head_scores narrow_head_mask mf w
  show ?thesis by blast
qed

text \<open>
  Claim C2, amended. In every head, for every input of the head's embedding width (a
  positive number) and of at most \<open>block_size\<close> positions (the size of the head's mask
  buffer, which bounds every input that \<open>LanguageModel.forward\<close> accepts), the entries of
  the scores above the diagonal are set to minus infinity before the softmax over the time
  axis, and the normalised attention weight from query position \<open>t\<close> to any key position
  \<open>t' > t\<close> is exactly zero, also after dropout. Without dropout (in evaluation mode) every
  row of the weights sums to one. The statement holds for any parameters of the head, hence
  for every head of every layer.
\<close>

theorem C2_causal_attention_weights:
  assumes wf: "wf_head C hs bs h" and x: "is_mat T C x" and C: "0 < C" and T: "T \<le> bs"
  shows "\<exists>scores masked wei.
           Head_scores h x = Inr scores
         \<and> masked_fill scores (tril_mask (head_tril h) T) = Inr masked
         \<and> (\<forall>t<T. \<forall>t'<T. masked ! t ! t' = (if t < t' then NegInf else Finite (scores ! t ! t')))
         \<and> Head_weights h training zeroed x = Inr wei
         \<and> is_mat T T wei
         \<and> (\<forall>t<T. \<forall>t'<T. t < t' \<longrightarrow> wei ! t ! t' = 0)
         \<and> (\<not> training \<longrightarrow> (\<forall>t<T. sum_list (wei ! t) = 1))"
proof -
  obtain scores masked where s: "Head_scores h x = Inr scores"
    and mf: "masked_fill scores (tril_mask (head_tril h) T) = Inr masked"
    and ms: "is_mat T T masked"
    and m_nth: "\<forall>t<T. \<forall>t'<T. masked ! t ! t' = (if t < t' then NegInf else Finite (scores ! t ! t'))"
    and w: "Head_weights h training zeroed x
              = Inr (dropout (head_dropout h) training zeroed (map softmax_scores masked))"
    using Head_masked[OF assms, of training zeroed] by blast
  define sm where "sm = map softmax_scores masked"
  define wei where "wei = dropout (head_dropout h) training zeroed sm"
  have sm_shape: "is_mat T T sm" unfolding sm_def using ms by (rule softmax_rows_shape)
  have w_shape: "is_mat T T wei" unfolding wei_def using sm_shape by (rule dropout_shape)
  have sm_zero: "sm ! t ! t' = 0" if "t < T" "t' < T" "t < t'" for t t'
  proof -
    have "length (masked ! t) = T" using ms that(1) by (rule is_mat_nth)
    moreover have "masked ! t ! t' = NegInf" using m_nth that by simp
    ultimately have "softmax_scores (masked ! t) ! t' = 0"
      using that(2) by (simp add: softmax_scores_NegInf)
    then show ?thesis using that(1) ms by (simp add: sm_def is_mat_length)
  qed
  have w_zero: "wei ! t ! t' = 0" if "t < T" "t' < T" "t < t'" for t t'
    unfolding wei_def
    using that sm_zero[OF that] is_mat_length[OF sm_shape] is_mat_nth[OF sm_shape that(1)]
    by (intro dropout_zero) simp_all
  have w_sum: "sum_list (wei ! t) = 1" if "\<not> training" "t < T" for t
  proof -
    have "length (masked ! t) = T" using ms that(2) by (rule is_mat_nth)
    moreover have "masked ! t ! t = Finite (scores ! t ! t)" using m_nth that(2) by simp
    ultimately have "sum_list (softmax_scores (masked ! t)) = 1"
      using that(2) by (intro softmax_scores_sum[of t]) simp_all
    then show ?thesis
      using that ms by (simp add: wei_def sm_def dropout_def is_mat_length)
  qed
  have w': "Head_weights h training zeroed x = Inr wei" using w by (simp add: wei_def sm_def)
  show ?thesis
    using s mf m_nth w' w_shape w_zero w_sum by blast
qed

theorem C2_causal_attention_weights_witness:
  "wf_head 1 1 2 tiny_head \<and> is_mat 2 1 [[0], [0 :: real]]
   \<and> (\<exists>wei. Head_weights tiny_head True no_drop [[0], [0]] = Inr wei \<and> wei ! 0 ! 1 = 0)
   \<and> Head_weights tiny_head True no_drop [[0], [0]] = Inr [[10 / 9, 0], [5 / 9, 5 / 9]]"
proof -
  have x: "is_mat 2 1 [[0], [0 :: real]]" by (simp add: is_mat_def)
  have c: "(0::nat) < 1" and t: "(2::nat) \<le> 2" by simp_all
  from C2_causal_attention_weights[OF wf_tiny_head x c t, of True no_drop]
  obtain wei where w: "Head_weights tiny_head True no_drop [[0], [0]] = Inr wei"
    and z: "\<forall>t<2. \<forall>t'<2. t < t' \<longrightarrow> wei ! t ! t' = 0"
    by blast
  from z have "wei ! 0 ! 1 = 0" by simp
  moreover have "Head_weights tiny_head True no_drop [[0], [0]] = Inr [[10 / 9, 0], [5 / 9, 5 / 9]]"
    by (simp add: Head_weights_def Head_scores_def last_dim_def tiny_head_def Linear_init_def zero_init_def
        linear_fwd_def linear_row_def linear_apply_def dot_def matmul_transposed_def ncols_def dotv_def
        inv_sqrt_def masked_fill_def tril_mask_def tril_ones_def softmax_scores_def exp_score_def
        dropout_def no_drop_def upt_rec[of 0] upt_rec[of 1] upt_rec[of "Suc 0"])
  ultimately show ?thesis using wf_tiny_head x w by blast
qed

text \<open>
  Claim C1 says that the raw scores are \<open>q k\<^sup>T\<close> scaled by \<open>1/sqrt(headSize)\<close>. The source
  scales by \<open>C**-0.5\<close> where \<open>C\<close> is the last entry of \<open>x.shape\<close>, the embedding width
  (lemma \<open>Head_scores_eq\<close>), although its comments give the shape of \<open>k\<close> and \<open>q\<close> as
  \<open>(B,T,C)\<close>. On a head of embedding width 4 and head width 1 with all weights one and the
  input row \<open>(1,1,1,1)\<close>, the query and the key are both \<open>4\<close>; the source returns the score
  \<open>16 / sqrt 4 = 8\<close>, where the claim requires \<open>16 / sqrt 1 = 16\<close>.
\<close>

theorem C1_scores_scaled_by_embedding_width:
  "Head_scores ones_head [[1, 1, 1, 1]] = Inr [[8]]
   \<and> dotv (linear_apply (head_query ones_head) [1, 1, 1, 1])
           (linear_apply (head_key ones_head) [1, 1, 1, 1])
        * (1 / sqrt (real (lin_out (head_key ones_head)))) = 16
   \<and> lin_in (head_key ones_head) = 4 \<and> lin_out (head_key ones_head) = 1"
  using ones_head_scores
  by (simp add: ones_head_def linear_apply_def dot_def dotv_def lessThan_nat_numeral lessThan_Suc)

text \<open>
  Claim C6, as written: \<open>forward\<close> returns logits of shape \<open>(B, T, vocabSize)\<close> and, with
  targets, a non-negative loss. With targets the source rebinds \<open>logits\<close> to
  \<open>logits.view(B*T, C)\<close> before returning: for one row of two tokens the returned logits
  are a matrix of two rows, not a tensor of shape \<open>(1, 2, 2)\<close>. And on an input without
  positions the mean of no terms is not a number.
\<close>

theorem C6_forward_flattens_logits_counterexample:
  "forward tiny_model no_drop [[0, 0]] (Some [[0, 0]])
     = Inr (Logits2 [[0, 0], [0, 0]], Some (Loss (ln 2)))
   \<and> forward tiny_model no_drop [[]] (Some [[]]) = Inr (Logits2 [], Some NaN)"
proof -
  have "forward tiny_model no_drop [[]] (Some [[]]) = Inr (Logits2 [], Some NaN)"
    by (simp add: forward_def tiny_model_def ncols_def mat_add_def tiny_block_def Block_forward_def
        layer_norm_fwd_def MultiHeadAttention_forward_def Head_forward_def Head_weights_def
        Head_scores_def last_dim_def linear_fwd_def matmul_transposed_def inv_sqrt_def Linear_init_def
        tiny_head_def masked_fill_def tril_mask_def dropout_def matmul_def cat_last_def
        FeedFoward_forward_def relu_def cross_entropy_def)
  then show ?thesis using tiny_forward_targets[of no_drop] by simp
qed

text \<open>
  Claim C6, amended. For every integer input of shape \<open>(B, T)\<close> with \<open>T \<le> blockSize\<close> and
  every entry in \<open>[0, vocabSize)\<close>, \<open>forward\<close> on a well-formed model returns, without
  targets, logits of shape \<open>(B, T, vocabSize)\<close> and the loss \<open>None\<close>. With targets of shape
  \<open>(B, T)\<close> and entries in \<open>[0, vocabSize)\<close> it returns the same logits flattened to shape
  \<open>(B*T, vocabSize)\<close> and the mean cross-entropy over the \<open>B*T\<close> flattened positions, a
  non-negative scalar when \<open>B*T > 0\<close>.
\<close>

theorem C6_forward_shapes_and_loss:
  assumes wf: "wf_model m"
      and idx: "is_mat B T idx"
      and T: "T \<le> block_size_of m"
      and rng: "\<forall>row\<in>set idx. \<forall>i\<in>set row. 0 \<le> i \<and> i < int (vocab_of m)"
  shows "\<exists>lg. forward m zeroed idx None = Inr (Logits3 lg, None)
            \<and> length lg = B \<and> list_all (is_mat T (vocab_of m)) lg
            \<and> (\<forall>tg. is_mat B T tg \<and> (\<forall>row\<in>set tg. \<forall>y\<in>set row. 0 \<le> y \<and> y < int (vocab_of m)) \<longrightarrow>
                   (\<exists>l. forward m zeroed idx (Some tg) = Inr (Logits2 (concat lg), Some l)
                       \<and> is_mat (B * T) (vocab_of m) (concat lg)
                       \<and> l = (if B * T = 0 then NaN
                              else Loss (sum_list (map (\<lambda>(row, y). - log_softmax_at row (nat y))
                                                       (zip (concat lg) (concat tg)))
                                         / real (B * T)))
                       \<and> (0 < B * T \<longrightarrow> (\<exists>v. l = Loss v \<and> 0 \<le> v))))"
proof -
  obtain lg where ll: "length lg = B" and ls: "list_all (is_mat T (vocab_of m)) lg"
    and f0: "forward m zeroed idx None = Inr (Logits3 lg, None)"
    and f1: "\<And>tg. forward m zeroed idx (Some tg) =
                      (if length (concat tg) \<noteq> length (concat lg) then Inl RuntimeError
                       else case cross_entropy (concat lg) (concat tg) of
                              Inl e \<Rightarrow> Inl e
                            | Inr l \<Rightarrow> Inr (Logits2 (concat lg), Some l))"
    using forward_logits[OF assms, of zeroed] by blast
  have cm: "is_mat (B * T) (vocab_of m) (concat lg)" using ll ls by (rule concat_is_mat)
  have "\<exists>l. forward m zeroed idx (Some tg) = Inr (Logits2 (concat lg), Some l)
           \<and> is_mat (B * T) (vocab_of m) (concat lg)
           \<and> l = (if B * T = 0 then NaN
                  else Loss (sum_list (map (\<lambda>(row, y). - log_softmax_at row (nat y))
                                           (zip (concat lg) (concat tg)))
                             / real (B * T)))
           \<and> (0 < B * T \<longrightarrow> (\<exists>v. l = Loss v \<and> 0 \<le> v))"
    if tg: "is_mat B T tg" and tr: "\<forall>row\<in>set tg. \<forall>y\<in>set row. 0 \<le> y \<and> y < int (vocab_of m)"
    for tg
  proof -
    have tl: "length (concat tg) = B * T" using tg by (rule concat_length_is_mat)
    have cl: "length (concat lg) = B * T" using cm by (rule is_mat_length)
    have cr: "\<forall>y\<in>set (concat tg). 0 \<le> y \<and> y < int (vocab_of m)" using tr by auto
    note ce = cross_entropy_value[OF cm tl cr]
    show ?thesis using ce cm by (simp add: f1 tl cl)
  qed
  with f0 ll ls show ?thesis by blast
qed

theorem C6_forward_shapes_and_loss_witness:
  "wf_model tiny_model \<and> is_mat 1 2 [[0, 0 :: int]] \<and> 2 \<le> block_size_of tiny_model
   \<and> (\<exists>lg. forward tiny_model no_drop [[0, 0]] None = Inr (Logits3 lg, None) \<and> length lg = 1
          \<and> list_all (is_mat 2 (vocab_of tiny_model)) lg)"
proof -
  have i: "is_mat 1 2 [[0, 0 :: int]]" by (simp add: is_mat_def)
  have b: "2 \<le> block_size_of tiny_model"
    by (simp add: block_size_of_def tiny_model_def Embedding_init_def)
  have r: "\<forall>row\<in>set [[0, 0 :: int]]. \<forall>i\<in>set row. 0 \<le> i \<and> i < int (vocab_of tiny_model)"
    by (simp add: vocab_of_def tiny_model_def Embedding_init_def)
  from C6_forward_shapes_and_loss[OF wf_tiny_model i b r, of no_drop]
  show ?thesis using wf_tiny_model i b by blast
qed


section \<open>Block construction, generation and training: claims\<close>

text \<open>
  Claim C3, as written: constructing a block with \<open>embeddingSize=65, numHeads=16\<close> fails at
  construction time with a \<open>ConfigurationError\<close>. The constructor has no such check: it
  returns a block of sixteen heads of width \<open>65 // 16 = 4\<close>.
\<close>

theorem C3_uneven_block_is_constructed_counterexample:
  "Block_init zero_init 65 16 64 4 (1 / 10) (1 / 10) (1 / 10) (1 / 10) = Inr uneven_block
   \<and> Block_init zero_init 65 16 64 4 (1 / 10) (1 / 10) (1 / 10) (1 / 10) \<noteq> Inl ConfigurationError"
  by (simp add: uneven_block_constructed)

text \<open>
  Claim C3, amended. Constructing a block never checks that the embedding size is evenly
  divisible by the head count. With dropout rates in \<open>[0, 1]\<close>, construction fails only for
  a head count of zero (with the \<open>ZeroDivisionError\<close> of \<open>n_embd // n_head\<close>); for every
  positive head count it succeeds, with heads of width \<open>n_embd // n_head\<close>. When the
  embedding size is not evenly divisible by the head count, the failure comes at
  \<open>forward\<close>: on every input of the block's embedding width with at least one and at most
  \<open>block_size\<close> positions the projection of the concatenated heads raises \<open>RuntimeError\<close>.
  When it is divisible, the block is well formed.
\<close>

theorem C3_block_construction_unchecked:
  assumes "0 \<le> hp" "hp \<le> 1" "0 \<le> mp" "mp \<le> 1" "0 \<le> fp" "fp \<le> 1" "0 \<le> bp" "bp \<le> 1"
  shows "Block_init ini n_embd 0 bs widen hp mp fp bp = Inl ZeroDivisionError
       \<and> (0 < n_head \<longrightarrow>
            (\<exists>b. Block_init ini n_embd n_head bs widen hp mp fp bp = Inr b
                \<and> length (mha_heads (blk_sa b)) = n_head
                \<and> (\<forall>h\<in>set (mha_heads (blk_sa b)).
                      lin_out (head_key h) = n_embd div n_head
                    \<and> lin_out (head_query h) = n_embd div n_head
                    \<and> lin_out (head_value h) = n_embd div n_head)
                \<and> (n_head dvd n_embd \<longrightarrow> wf_block n_embd bs b)
                \<and> (\<not> n_head dvd n_embd \<longrightarrow>
                     (\<forall>T x training zeroed. is_mat T n_embd x \<and> 0 < T \<and> T \<le> bs \<longrightarrow>
                        Block_forward b training zeroed x = Inl RuntimeError))))"
proof -
  have zero: "Block_init ini n_embd 0 bs widen hp mp fp bp = Inl ZeroDivisionError"
    by (simp add: Block_init_def)
  have pos: "\<exists>b. Block_init ini n_embd n_head bs widen hp mp fp bp = Inr b
                \<and> length (mha_heads (blk_sa b)) = n_head
                \<and> (\<forall>h\<in>set (mha_heads (blk_sa b)).
                      lin_out (head_key h) = n_embd div n_head
                    \<and> lin_out (head_query h) = n_embd div n_head
                    \<and> lin_out (head_value h) = n_embd div n_head)
                \<and> (n_head dvd n_embd \<longrightarrow> wf_block n_embd bs b)
                \<and> (\<not> n_head dvd n_embd \<longrightarrow>
                     (\<forall>T x training zeroed. is_mat T n_embd x \<and> 0 < T \<and> T \<le> bs \<longrightarrow>
                        Block_forward b training zeroed x = Inl RuntimeError))"
    if n: "0 < n_head"
  proof -
    obtain b where b: "Block_init ini n_embd n_head bs widen hp mp fp bp = Inr b"
      and len: "length (mha_heads (blk_sa b)) = n_head"
      and heads: "list_all (wf_head n_embd (n_embd div n_head) bs) (mha_heads (blk_sa b))"
      and proj: "lin_in (mha_proj (blk_sa b)) = n_embd" "lin_out (mha_proj (blk_sa b)) = n_embd"
      and ff: "wf_ff n_embd (blk_ffwd b)"
      and ln: "ln_dim (blk_ln1 b) = n_embd" "ln_dim (blk_ln2 b) = n_embd"
      using Block_init_ok[OF n assms] by blast
    have ne: "mha_heads (blk_sa b) \<noteq> []" using len n by auto
    have widths: "\<forall>h\<in>set (mha_heads (blk_sa b)).
                      lin_out (head_key h) = n_embd div n_head
                    \<and> lin_out (head_query h) = n_embd div n_head
                    \<and> lin_out (head_value h) = n_embd div n_head"
      using heads by (simp add: list_all_iff wf_head_def)
    have even: "wf_block n_embd bs b" if "n_head dvd n_embd"
      using that heads ne proj ff ln len
      by (simp add: wf_block_def wf_mha_def mult_div_eq_iff_dvd)
    have uneven: "Block_forward b training zeroed x = Inl RuntimeError"
      if "\<not> n_head dvd n_embd" "is_mat T n_embd x" "0 < T" "T \<le> bs" for T x training zeroed
      using Block_forward_uneven[of n_embd b bs T x training zeroed] heads ne proj ln(1) that len
      by simp
    show ?thesis using b len widths even uneven by blast
  qed
  from zero pos show ?thesis by blast
qed

theorem C3_block_construction_unchecked_witness:
  "\<not> (16::nat) dvd 65
   \<and> Block_init zero_init 65 16 64 4 (1 / 10) (1 / 10) (1 / 10) (1 / 10) = Inr uneven_block
   \<and> Block_forward uneven_block True no_drop [replicate 65 0] = Inl RuntimeError"
proof -
  have r: "(0::real) \<le> 1 / 10" "(1::real) / 10 \<le> 1" by simp_all
  have nd: "\<not> (16::nat) dvd 65" by simp
  have x: "is_mat 1 65 [replicate 65 (0::real)]" by (simp add: is_mat_def)
  from C3_block_construction_unchecked[OF r r r r, of zero_init 65 64 4 16]
  obtain b where b: "Block_init zero_init 65 16 64 4 (1 / 10) (1 / 10) (1 / 10) (1 / 10) = Inr b"
    and f: "\<not> (16::nat) dvd 65 \<longrightarrow>
              (\<forall>T x training zeroed. is_mat T 65 x \<and> 0 < T \<and> T \<le> 64 \<longrightarrow>
                 Block_forward b training zeroed x = Inl RuntimeError)"
    by auto
  have "b = uneven_block" using b by (simp add: uneven_block_constructed)
  moreover have "Block_forward b True no_drop [replicate 65 0] = Inl RuntimeError"
  proof -
    have "is_mat 1 65 [replicate 65 (0::real)] \<and> (0::nat) < 1 \<and> (1::nat) \<le> 64" using x by simp
    with f nd show ?thesis by blast
  qed
  ultimately show ?thesis using nd by (simp add: uneven_block_constructed)
qed

text \<open>
  Claim C7, as written: for every seed sequence \<open>generate\<close> returns a sequence of length
  \<open>len(seed) + maxNewTokens\<close>. On an empty seed the first pass fails: the logits have an
  empty time axis and \<open>logits[:, -1, :]\<close> raises \<open>IndexError\<close>.
\<close>

theorem C7_generate_empty_seed_counterexample:
  "generate tiny_model 2 no_drop three_quarters [[]] 1 = Inl IndexError"
  by (rule tiny_generate_empty_seed)

text \<open>
  Claim C7, amended. On a well-formed model with a positive context length, for every
  batch of at least one non-empty seed sequence of token ids in \<open>[0, vocabSize)\<close> and every
  \<open>maxNewTokens \<ge> 0\<close>, \<open>generate\<close> returns sequences of length \<open>len(seed) + maxNewTokens\<close> in
  which every id lies in \<open>[0, vocabSize)\<close>. At each step \<open>k < maxNewTokens\<close>, the running
  sequence (the result of the first \<open>k\<close> steps) is cropped to its last \<open>blockSize\<close> tokens,
  \<open>forward\<close> is run on it without targets, and each row is extended by the token sampled
  from the softmax of the logits of its final time step.
\<close>

theorem C7_generate_length_and_range:
  assumes wf: "wf_model m" and bs: "0 < block_size_of m"
      and idx: "is_mat B T idx" and B: "0 < B" and T: "0 < T"
      and rng: "\<forall>row\<in>set idx. \<forall>i\<in>set row. 0 \<le> i \<and> i < int (vocab_of m)"
  shows "(\<exists>out. generate m (block_size_of m) zeroed unif idx max_new_tokens = Inr out
              \<and> is_mat B (T + max_new_tokens) out
              \<and> (\<forall>row\<in>set out. \<forall>i\<in>set row. 0 \<le> i \<and> i < int (vocab_of m)))
       \<and> (\<forall>k<max_new_tokens.
             \<exists>cur lg. generate m (block_size_of m) zeroed unif idx k = Inr cur
                    \<and> is_mat B (T + k) cur
                    \<and> forward m (sub zeroed k) (map (crop (block_size_of m)) cur) None
                         = Inr (Logits3 lg, None)
                    \<and> generate m (block_size_of m) zeroed unif idx (Suc k)
                         = Inr (map (\<lambda>b. cur ! b @ [int (pick (unif [k, b]) (softmax (last (lg ! b))))])
                                    [0..<B]))"
proof -
  have run: "\<exists>out. generate m (block_size_of m) zeroed unif idx n = Inr out
              \<and> is_mat B (T + n) out
              \<and> (\<forall>row\<in>set out. \<forall>i\<in>set row. 0 \<le> i \<and> i < int (vocab_of m))" for n
    unfolding generate_def using wf bs idx T rng by (rule generate_loop_ok)
  have step: "\<exists>cur lg. generate m (block_size_of m) zeroed unif idx k = Inr cur
                    \<and> is_mat B (T + k) cur
                    \<and> forward m (sub zeroed k) (map (crop (block_size_of m)) cur) None
                         = Inr (Logits3 lg, None)
                    \<and> generate m (block_size_of m) zeroed unif idx (Suc k)
                         = Inr (map (\<lambda>b. cur ! b @ [int (pick (unif [k, b]) (softmax (last (lg ! b))))])
                                    [0..<B])" for k
  proof -
    obtain cur where c: "generate m (block_size_of m) zeroed unif idx k = Inr cur"
      and cs: "is_mat B (T + k) cur"
      and cr: "\<forall>row\<in>set cur. \<forall>i\<in>set row. 0 \<le> i \<and> i < int (vocab_of m)"
      using run[of k] by blast
    have pos: "0 < T + k" using T by simp
    obtain lg where f: "forward m (sub zeroed k) (map (crop (block_size_of m)) cur) None
                          = Inr (Logits3 lg, None)"
      and g: "generate_step m (block_size_of m) (sub zeroed k) (sub unif k) cur
                = Inr (map (\<lambda>b. cur ! b @ [int (pick (sub unif k [b]) (softmax (last (lg ! b))))]) [0..<B])"
      using generate_step_ok[OF wf bs cs pos cr, of "sub zeroed k" "sub unif k"] by blast
    have "generate m (block_size_of m) zeroed unif idx (Suc k)
            = generate_step m (block_size_of m) (sub zeroed k) (sub unif k) cur"
      using c by (simp add: generate_def generate_loop_Suc_end del: generate_loop.simps)
    then have "generate m (block_size_of m) zeroed unif idx (Suc k)
                 = Inr (map (\<lambda>b. cur ! b @ [int (pick (unif [k, b]) (softmax (last (lg ! b))))]) [0..<B])"
      using g by (simp add: sub_def)
    with c cs f show ?thesis by blast
  qed
  from run[of max_new_tokens] step show ?thesis by blast
qed

theorem C7_generate_length_and_range_witness:
  "wf_model tiny_model \<and> 0 < block_size_of tiny_model \<and> is_mat 1 1 [[0 :: int]]
   \<and> (\<exists>out. generate tiny_model (block_size_of tiny_model) no_drop three_quarters [[0]] 2 = Inr out
          \<and> is_mat 1 (1 + 2) out)
   \<and> generate tiny_model 2 no_drop three_quarters [[0]] 2 = Inr [[0, 1, 1]]"
proof -
  have i: "is_mat 1 1 [[0 :: int]]" by (simp add: is_mat_def)
  have b: "0 < block_size_of tiny_model"
    by (simp add: block_size_of_def tiny_model_def Embedding_init_def)
  have t: "(0::nat) < 1" by simp
  have r: "\<forall>row\<in>set [[0 :: int]]. \<forall>i\<in>set row. 0 \<le> i \<and> i < int (vocab_of tiny_model)"
    by (simp add: vocab_of_def tiny_model_def Embedding_init_def)
  from C7_generate_length_and_range[OF wf_tiny_model b i t t r, of no_drop three_quarters 2]
  have "\<exists>out. generate tiny_model (block_size_of tiny_model) no_drop three_quarters [[0]] 2 = Inr out
          \<and> is_mat 1 (1 + 2) out"
    by blast
  then show ?thesis using wf_tiny_model b i tiny_generate by blast
qed

text \<open>
  Claim C10. For every seed and every \<open>maxNewTokens \<ge> 0\<close>, the sequences returned by
  \<open>generate\<close> begin with the seed unchanged: there are as many rows as seeds, and the first
  \<open>len(seed)\<close> elements of each returned row are the seed row, element for element. This
  holds for whatever the model and the random draws are, whenever \<open>generate\<close> returns; and
  \<open>generate\<close> does return, \<open>maxNewTokens\<close> tokens after each seed, on a well-formed model
  with a positive context length for at least one non-empty seed of valid token ids.
\<close>

theorem C10_generate_keeps_seed_prefix:
  "(generate m block_size zeroed unif idx max_new_tokens = Inr out \<longrightarrow>
      length out = length idx
    \<and> (\<forall>b<length idx. take (length (idx ! b)) (out ! b) = idx ! b))
   \<and> (wf_model m \<and> 0 < block_size_of m \<and> is_mat B T idx \<and> 0 < B \<and> 0 < T
      \<and> (\<forall>row\<in>set idx. \<forall>i\<in>set row. 0 \<le> i \<and> i < int (vocab_of m)) \<longrightarrow>
        (\<exists>out'. generate m (block_size_of m) zeroed unif idx max_new_tokens = Inr out'
              \<and> length out' = B
              \<and> (\<forall>b<B. take T (out' ! b) = idx ! b \<and> length (out' ! b) = T + max_new_tokens)))"
proof (intro conjI impI)
  assume "generate m block_size zeroed unif idx max_new_tokens = Inr out"
  then have g: "generate_loop m block_size zeroed unif 0 idx max_new_tokens = Inr out"
    by (simp add: generate_def)
  from generate_loop_frame[OF g] show "length out = length idx" by simp
  from generate_loop_frame[OF g]
  show "\<forall>b<length idx. take (length (idx ! b)) (out ! b) = idx ! b" by simp
next
  assume a: "wf_model m \<and> 0 < block_size_of m \<and> is_mat B T idx \<and> 0 < B \<and> 0 < T
      \<and> (\<forall>row\<in>set idx. \<forall>i\<in>set row. 0 \<le> i \<and> i < int (vocab_of m))"
  then have wf: "wf_model m" and bs: "0 < block_size_of m" and idx: "is_mat B T idx"
    and T: "0 < T" and rng: "\<forall>row\<in>set idx. \<forall>i\<in>set row. 0 \<le> i \<and> i < int (vocab_of m)"
    by simp_all
  obtain out' where g: "generate_loop m (block_size_of m) zeroed unif 0 idx max_new_tokens = Inr out'"
    using generate_loop_ok[OF wf bs idx T rng, of zeroed unif 0 max_new_tokens] by blast
  have lenB: "length idx = B" using idx by (rule is_mat_length)
  have rows: "take T (out' ! b) = idx ! b \<and> length (out' ! b) = T + max_new_tokens" if b: "b < B" for b
  proof -
    have l: "length (idx ! b) = T" using idx b by (rule is_mat_nth)
    have "take (length (idx ! b)) (out' ! b) = idx ! b
          \<and> length (out' ! b) = length (idx ! b) + max_new_tokens"
      using generate_loop_frame[OF g] b lenB by blast
    then show ?thesis by (simp add: l)
  qed
  have "length out' = B" using generate_loop_frame[OF g] lenB by simp
  with g rows
  show "\<exists>out'. generate m (block_size_of m) zeroed unif idx max_new_tokens = Inr out'
              \<and> length out' = B
              \<and> (\<forall>b<B. take T (out' ! b) = idx ! b \<and> length (out' ! b) = T + max_new_tokens)"
    by (auto simp: generate_def)
qed

theorem C10_generate_keeps_seed_prefix_witness:
  "generate tiny_model 2 no_drop three_quarters [[0]] 2 = Inr [[0, 1, 1]]
   \<and> length [[0 :: int, 1, 1]] = length [[0 :: int]]
   \<and> take (length [0 :: int]) [0, 1, 1] = [0 :: int]
   \<and> wf_model tiny_model \<and> 0 < block_size_of tiny_model \<and> is_mat 1 1 [[0 :: int]]
   \<and> (\<exists>out'. generate tiny_model (block_size_of tiny_model) no_drop three_quarters [[0]] 2 = Inr out'
           \<and> length out' = 1)"
proof -
  have i: "is_mat 1 1 [[0 :: int]]" by (simp add: is_mat_def)
  have b: "0 < block_size_of tiny_model"
    by (simp add: block_size_of_def tiny_model_def Embedding_init_def)
  have r: "\<forall>row\<in>set [[0 :: int]]. \<forall>i\<in>set row. 0 \<le> i \<and> i < int (vocab_of tiny_model)"
    by (simp add: vocab_of_def tiny_model_def Embedding_init_def)
  note inst = C10_generate_keeps_seed_prefix[of tiny_model 2 no_drop three_quarters "[[0]]" 2
      "[[0, 1, 1]]" 1 1]
  from inst tiny_generate
  have p: "length [[0 :: int, 1, 1]] = length [[0 :: int]]
          \<and> take (length [0 :: int]) [0, 1, 1] = [0 :: int]"
    by simp
  from inst wf_tiny_model b i r
  have e: "\<exists>out'. generate tiny_model (block_size_of tiny_model) no_drop three_quarters [[0]] 2 = Inr out'
           \<and> length out' = 1"
    by auto
  from p e tiny_generate wf_tiny_model b i show ?thesis by blast
qed

text \<open>
  Claim C8 says that the training loop runs for \<open>maxIters\<close> steps and appends a loss record
  at every evaluation step. In the source the first evaluation, at step 0, calls
  \<open>estimate_loss("train")\<close> without the required argument \<open>model\<close>: the call raises
  \<open>TypeError\<close> before any record is appended, so with the notebook's hyperparameters the
  loop ends at step 0 with the log and the model unchanged. The cell as a whole fails even
  earlier, in \<open>LanguageModel()\<close>, whose blocks are constructed without \<open>block_size\<close>.
\<close>

theorem C8_training_loop_raises_TypeError:
  "training_loop c notebook_hyper raw zeroed update st = (Some TypeError, st)
   \<and> training_cell c notebook_hyper vocab ini raw zeroed update log0 = (Some TypeError, log0)"
proof -
  have "0 < hp_max_iters notebook_hyper" "0 < hp_eval_interval notebook_hyper"
    "0 < hp_n_layer notebook_hyper"
    by (simp_all add: notebook_hyper_def)
  then show ?thesis by (simp add: training_loop_TypeError training_cell_TypeError)
qed

end
